theory Spec2Isabelle
  imports Complex_Main "HOL-Library.Word" "HOL-Library.Signed_Division"
begin

section \<open>The calibrator of ebeam-tools\<close>

text \<open>
  A shallow embedding of the class \<open>Calibrator\<close> (calibrator.hpp and its implementation
  file): the click collection, the computation and the replay test of the homography
  matrix, the transfer to the kernel driver and to the X server, and the state file.

  The static flag \<open>verbose\<close> is off in the model: it only adds diagnostic lines on
  stderr. The lines the code prints whatever the flag are in the model.
\<close>

subsection \<open>C++ integers\<close>

text \<open>
  \<open>int\<close> is 32 bits wide and \<open>long long\<close> 64 bits, as on the platforms of the kernel
  driver. \<open>+\<close>, \<open>-\<close> and \<open>*\<close> on words wrap around; where the source would overflow a
  signed integer, C++ leaves the result open and the model has the two's complement one.
\<close>

type_synonym c_int = "32 word"
type_synonym c_llong = "64 word"

definition SUCCESS :: bool where [simp]: "SUCCESS = True"
definition FAILURE :: bool where [simp]: "FAILURE = False"

text \<open>The conversion of an \<open>int\<close> operand to \<open>long long\<close> extends the sign.\<close>

definition to_llong :: "c_int \<Rightarrow> c_llong" where
  "to_llong x = scast x"

text \<open>The cast \<open>(int)\<close> of a \<open>long long\<close> keeps the low 32 bits.\<close>

definition to_int :: "c_llong \<Rightarrow> c_int" where
  "to_int v = ucast v"

text \<open>\<open>abs\<close> of stdlib; at the least \<open>int\<close> the negation wraps to itself.\<close>

definition c_abs :: "c_int \<Rightarrow> c_int" where
  "c_abs x = (if x <s 0 then - x else x)"

text \<open>
  The operator \<open>/\<close> on \<open>long long\<close> truncates toward zero. The divisor is not zero where
  the model calls it: the callers test it first, as the processor traps on it.
\<close>

definition c_div :: "c_llong \<Rightarrow> c_llong \<Rightarrow> c_llong" where
  "c_div a b = word_of_int (sint a sdiv sint b)"

text \<open>What stops a run without a result: the places where the source leaves C++.\<close>

datatype fault =
    ArrayBounds       \<comment> \<open>a fifth tuple written or read in \<open>Tuple tuple[NUM_POINTS]\<close>\<close>
  | DivideError       \<comment> \<open>integer division by zero\<close>
  | FloatConversion   \<comment> \<open>a floating value outside \<open>long long\<close> cast to it\<close>
  | BufferOverrun     \<comment> \<open>more than 9 characters read into \<open>char version[10]\<close>\<close>

subsection \<open>Floating point\<close>

text \<open>
  A floating-point value is a real number, or an infinity or a NaN. The operations of
  IEEE 754 return the exact result rounded to the format, to the nearest value and to the
  even mantissa at a tie. A format has \<open>p\<close> bits of mantissa and binary exponents from
  \<open>emin\<close> to \<open>emax\<close>: \<open>double\<close> has 53 bits and the exponents -1022 to 1023, \<open>long double\<close>
  on x86 (the extended format of the x87 unit) 64 bits and the exponents -16382 to 16383.
\<close>

datatype c_float = Finite real | NotFinite

text \<open>The integer nearest to \<open>q\<close>, the even one of two at the same distance.\<close>

definition rne :: "real \<Rightarrow> int" where
  "rne q = (let f = \<lfloor>q\<rfloor> in
            if q - of_int f < 1 / 2 then f
            else if 1 / 2 < q - of_int f then f + 1
            else if even f then f else f + 1)"

text \<open>
  The rounding of the real \<open>x\<close> to a format. The last place of the mantissa has the weight
  \<open>u\<close>; below the least exponent the weight stays that of the least exponent (subnormal
  values), and a result beyond the greatest exponent is an infinity.
\<close>

definition round_float :: "nat \<Rightarrow> int \<Rightarrow> int \<Rightarrow> real \<Rightarrow> c_float" where
  "round_float p emin emax x =
     (if x = 0 then Finite 0
      else let e = max \<lfloor>log 2 \<bar>x\<bar>\<rfloor> emin;
               u = 2 powi (e - int p + 1);
               y = of_int (rne (x / u)) * u
           in if 2 powi (emax + 1) \<le> \<bar>y\<bar> then NotFinite else Finite y)"

definition to_dbl :: "real \<Rightarrow> c_float" where
  "to_dbl x = round_float 53 (- 1022) 1023 x"

definition to_ldbl :: "real \<Rightarrow> c_float" where
  "to_ldbl x = round_float 64 (- 16382) 16383 x"

text \<open>
  The operators \<open>*\<close>, \<open>+\<close> and \<open>-\<close> on \<open>long double\<close>. An operand that is an infinity or a NaN
  gives an infinity or a NaN.
\<close>

definition ld_mul :: "c_float \<Rightarrow> c_float \<Rightarrow> c_float" where
  "ld_mul a b = (case a of NotFinite \<Rightarrow> NotFinite
                 | Finite x \<Rightarrow> (case b of NotFinite \<Rightarrow> NotFinite | Finite y \<Rightarrow> to_ldbl (x * y)))"

definition ld_add :: "c_float \<Rightarrow> c_float \<Rightarrow> c_float" where
  "ld_add a b = (case a of NotFinite \<Rightarrow> NotFinite
                 | Finite x \<Rightarrow> (case b of NotFinite \<Rightarrow> NotFinite | Finite y \<Rightarrow> to_ldbl (x + y)))"

definition ld_sub :: "c_float \<Rightarrow> c_float \<Rightarrow> c_float" where
  "ld_sub a b = (case a of NotFinite \<Rightarrow> NotFinite
                 | Finite x \<Rightarrow> (case b of NotFinite \<Rightarrow> NotFinite | Finite y \<Rightarrow> to_ldbl (x - y)))"

subsection \<open>Printing and scanning decimal numbers\<close>

definition newline :: char where
  "newline = CHR 0x0A"

definition isspace :: "char \<Rightarrow> bool" where
  "isspace ch \<longleftrightarrow> ch \<in> set [CHR '' '', CHR 0x09, CHR 0x0A, CHR 0x0B, CHR 0x0C, CHR 0x0D]"

definition isdigit :: "char \<Rightarrow> bool" where
  "isdigit ch \<longleftrightarrow> ch \<in> set ''0123456789''"

definition digit_char :: "nat \<Rightarrow> char" where
  "digit_char d = ''0123456789'' ! d"

definition digit_val :: "char \<Rightarrow> nat" where
  "digit_val ch = of_char ch - 48"

fun show_nat :: "nat \<Rightarrow> string" where
  "show_nat n = (if n < 10 then [digit_char n] else show_nat (n div 10) @ [digit_char (n mod 10)])"

declare show_nat.simps [simp del]

definition show_int :: "int \<Rightarrow> string" where
  "show_int k = (if k < 0 then CHR ''-'' # show_nat (nat (- k)) else show_nat (nat k))"

text \<open>The conversions \<open>%d\<close> and \<open>%lld\<close> of \<open>fprintf\<close> and \<open>sprintf\<close>.\<close>

definition print_d :: "'a::len word \<Rightarrow> string" where
  "print_d w = show_int (sint w)"

definition digits_val :: "string \<Rightarrow> nat" where
  "digits_val ds = foldl (\<lambda>a ch. 10 * a + digit_val ch) 0 ds"

text \<open>
  One conversion of \<open>fscanf\<close>: the value and the rest of the input, or a matching
  failure (the input does not start a number), or an input failure (the input ended).
\<close>

datatype 'a scanned = Converted 'a string | MatchFailure | InputFailure

text \<open>
  \<open>%d\<close> and \<open>%lld\<close>: white space is skipped, then an optional sign and the longest run of
  digits are read. The value is stored in the variable modulo its width.
\<close>

definition scan_d :: "string \<Rightarrow> int scanned" where
  "scan_d s =
     (case dropWhile isspace s of
        [] \<Rightarrow> InputFailure
      | ch # r \<Rightarrow>
          (let negative = (ch = CHR ''-'');
               body = (if ch = CHR ''-'' \<or> ch = CHR ''+'' then r else ch # r);
               ds = takeWhile isdigit body
           in if ds = [] then MatchFailure
              else Converted ((if negative then - 1 else 1) * int (digits_val ds))
                             (dropWhile isdigit body)))"

text \<open>\<open>%s\<close>: white space is skipped, then the characters up to the next white space are read.\<close>

definition scan_s :: "string \<Rightarrow> string scanned" where
  "scan_s s =
     (case dropWhile isspace s of
        [] \<Rightarrow> InputFailure
      | ch # r \<Rightarrow> Converted (takeWhile (\<lambda>x. \<not> isspace x) (ch # r))
                            (dropWhile (\<lambda>x. \<not> isspace x) (ch # r)))"

text \<open>A white-space character in a format skips all white space of the input.\<close>

definition skip_space :: "string \<Rightarrow> string" where
  "skip_space s = dropWhile isspace s"

subsection \<open>The data of a calibrator\<close>

definition NUM_POINTS :: nat where [simp]: "NUM_POINTS = 4"

record Tuple =
  dev_X :: c_int
  dev_Y :: c_int
  scr_x :: c_int
  scr_y :: c_int

text \<open>
  \<open>num\<close> counts the clicks stored; it starts at 0 and only \<open>add_click\<close> and
  \<open>reset_tuples\<close> write it. \<open>tuple\<close> is the array of \<open>NUM_POINTS\<close> entries.
\<close>

record Tuples =
  num :: nat
  tuple :: "Tuple list"

record Calibrator =
  device_dir :: string
  precision :: c_int
  threshold_doubleclick :: c_int
  tuples :: Tuples
  H :: "c_llong list"
  zoned :: bool
  min_x :: c_int
  min_y :: c_int
  max_x :: c_int
  max_y :: c_int
  screen_width :: c_int
  screen_height :: c_int
  ifile :: "string option"
  ofile :: "string option"

text \<open>
  What a calibrator works on outside itself: the files it opens (sysfs attributes of the
  driver and state files), the listing of a directory, the atoms and the device
  properties of the X server, and the lines written to stderr.
\<close>

datatype xprop = Integers "c_int list" | Floats "c_float list"

record env =
  files :: "string \<rightharpoonup> string"
  writable :: "string \<Rightarrow> bool"
  dirs :: "string \<rightharpoonup> string list"
  atoms :: "string \<Rightarrow> bool"
  props :: "string \<rightharpoonup> xprop"
  stderr :: "string list"

definition eprint :: "string \<Rightarrow> env \<Rightarrow> env" where
  "eprint line e = e\<lparr>stderr := stderr e @ [line]\<rparr>"

subsection \<open>Collecting clicks\<close>

definition reset_tuples :: "Calibrator \<Rightarrow> Calibrator" where
  "reset_tuples c = c\<lparr>tuples := (tuples c)\<lparr>num := 0\<rparr>\<rparr>"

text \<open>
  The loop of the double-click detection, \<open>i\<close> going from \<open>num - 1\<close> down to 0; the last
  argument is \<open>i + 1\<close>. The result says whether the loop returned \<open>FAILURE\<close>.
\<close>

fun double_click :: "c_int \<Rightarrow> c_int \<Rightarrow> c_int \<Rightarrow> Tuple list \<Rightarrow> nat \<Rightarrow> bool" where
  "double_click thr X Y ts 0 = False"
| "double_click thr X Y ts (Suc i) =
     (if c_abs (X - dev_X (ts ! i)) \<le>s thr \<and> c_abs (Y - dev_Y (ts ! i)) \<le>s thr then True
      else double_click thr X Y ts i)"

definition add_click :: "Calibrator \<Rightarrow> c_int \<Rightarrow> c_int \<Rightarrow> c_int \<Rightarrow> c_int \<Rightarrow> fault + bool \<times> Calibrator" where
  "add_click c X Y x y =
     (let n = num (tuples c); ts = tuple (tuples c) in
      if NUM_POINTS < n then Inl ArrayBounds
      else if 0 <s threshold_doubleclick c \<and> 0 < n
              \<and> double_click (threshold_doubleclick c) X Y ts n
        then Inr (FAILURE, c)
      else if n = NUM_POINTS then Inl ArrayBounds
      else Inr (SUCCESS,
                c\<lparr>tuples := \<lparr>num = n + 1,
                              tuple = ts[n := \<lparr>dev_X = X, dev_Y = Y, scr_x = x, scr_y = y\<rparr>]\<rparr>\<rparr>))"

subsection \<open>The replay of the matrix\<close>

text \<open>
  The three expressions of \<open>test_H\<close> for one tuple, in \<open>long long\<close>: the divisor
  \<open>div\<close> and the two quotients before their cast to \<open>int\<close>.
\<close>

definition denom :: "c_llong list \<Rightarrow> Tuple \<Rightarrow> c_llong" where
  "denom h t = h ! 6 * to_llong (dev_X t) + h ! 7 * to_llong (dev_Y t) + h ! 8"

definition replay_x :: "c_llong list \<Rightarrow> Tuple \<Rightarrow> c_llong" where
  "replay_x h t =
     c_div (2 * (h ! 0 * to_llong (dev_X t) + h ! 1 * to_llong (dev_Y t) + h ! 2) + denom h t)
           (2 * denom h t)"

definition replay_y :: "c_llong list \<Rightarrow> Tuple \<Rightarrow> c_llong" where
  "replay_y h t =
     c_div (2 * (h ! 3 * to_llong (dev_X t) + h ! 4 * to_llong (dev_Y t) + h ! 5) + denom h t)
           (2 * denom h t)"

text \<open>The body of the loop of \<open>test_H\<close> for one tuple.\<close>

datatype verdict = Reproduced | ZeroDivisor | Differs c_int c_int

definition test_point :: "c_llong list \<Rightarrow> Tuple \<Rightarrow> fault + verdict" where
  "test_point h t =
     (if denom h t = 0 then Inr ZeroDivisor
      else if 2 * denom h t = 0 then Inl DivideError
      else let x = to_int (replay_x h t); y = to_int (replay_y h t) in
           if x \<noteq> scr_x t \<or> y \<noteq> scr_y t then Inr (Differs x y) else Inr Reproduced)"

text \<open>
  The line of a point that is not reproduced; its \<open>fprintf\<close> is outside the
  \<open>if (verbose)\<close> above it, so it is printed whatever the flag.
\<close>

definition point_line :: "nat \<Rightarrow> Tuple \<Rightarrow> c_int \<Rightarrow> c_int \<Rightarrow> string" where
  "point_line p t x y =
     ''Point '' @ show_int (int p) @ '' : dev('' @ print_d (dev_X t) @ '' ; '' @ print_d (dev_Y t)
     @ '') => scr('' @ print_d x @ '' ; '' @ print_d y
     @ ''), real('' @ print_d (scr_x t) @ '' ; '' @ print_d (scr_y t) @ '')''"

text \<open>The loop over the points, from point \<open>p\<close> on; \<open>ts\<close> are the tuples still to test.\<close>

fun test_points :: "c_llong list \<Rightarrow> Tuple list \<Rightarrow> nat \<Rightarrow> env \<Rightarrow> fault + bool \<times> env" where
  "test_points h [] p e = Inr (SUCCESS, e)"
| "test_points h (t # ts) p e =
     (case test_point h t of
        Inl f \<Rightarrow> Inl f
      | Inr v \<Rightarrow>
          (case v of
             ZeroDivisor \<Rightarrow> Inr (FAILURE, e)
           | Differs x y \<Rightarrow> Inr (FAILURE, eprint (point_line (p + 1) t x y) e)
           | Reproduced \<Rightarrow> test_points h ts (p + 1) e))"

definition test_H :: "env \<times> Calibrator \<Rightarrow> fault + bool \<times> env \<times> Calibrator" where
  "test_H = (\<lambda>(e, c).
     case test_points (H c) (take 4 (tuple (tuples c))) 0 e of
       Inl f \<Rightarrow> Inl f
     | Inr (r, e') \<Rightarrow> Inr (r, e', c))"

text \<open>A tuple that one turn of the loop of \<open>test_H\<close> passes.\<close>

definition reproduced :: "c_llong list \<Rightarrow> Tuple \<Rightarrow> bool" where
  "reproduced h t \<longleftrightarrow> denom h t \<noteq> 0 \<and> 2 * denom h t \<noteq> 0
     \<and> to_int (replay_x h t) = scr_x t \<and> to_int (replay_y h t) = scr_y t"

subsection \<open>The homography matrix\<close>

text \<open>
  The system is solved by the GSL library (\<open>gsl_matrix_memcpy\<close>, \<open>gsl_linalg_LU_decomp\<close>,
  \<open>gsl_linalg_LU_solve\<close>), which is not part of the program. The model takes the library
  as a parameter: a function from the system to the first call that reported an error,
  or to the solution vector (its entries \<open>double\<close>, read by \<open>gsl_vector_get\<close>). The
  entries of the system are \<open>int\<close> values, which \<open>double\<close> holds exactly.
\<close>

datatype gsl_outcome =
  Memcpy_failed | LU_decomp_failed | LU_solve_failed | Solution "nat \<Rightarrow> c_float"

type_synonym gsl = "real list list \<Rightarrow> real list \<Rightarrow> gsl_outcome"

definition to_double :: "c_int \<Rightarrow> real" where
  "to_double k = real_of_int (sint k)"

text \<open>The two rows of \<open>A\<close> and the two entries of \<open>b\<close> of one tuple; the products are \<open>int\<close>.\<close>

definition rows_A :: "Tuple \<Rightarrow> real list list" where
  "rows_A t =
     [[to_double (dev_X t), to_double (dev_Y t), 1, 0, 0, 0,
       to_double (- (dev_X t * scr_x t)), to_double (- (dev_Y t * scr_x t))],
      [0, 0, 0, to_double (dev_X t), to_double (dev_Y t), 1,
       to_double (- (dev_X t * scr_y t)), to_double (- (dev_Y t * scr_y t))]]"

definition matrix_A :: "Tuple list \<Rightarrow> real list list" where
  "matrix_A ts = concat (map rows_A (take 4 ts))"

definition vector_b :: "Tuple list \<Rightarrow> real list" where
  "vector_b ts = concat (map (\<lambda>t. [to_double (scr_x t), to_double (scr_y t)]) (take 4 ts))"

text \<open>
  \<open>pow(10.0, precision)\<close> of the C library, a \<open>double\<close>: the power of ten where that is a
  \<open>double\<close> (the exponents 0 to 22), and taken to be the \<open>double\<close> nearest to it elsewhere.
\<close>

definition pow10 :: "c_int \<Rightarrow> c_float" where
  "pow10 p = to_dbl (10 powi sint p)"

text \<open>
  The cast \<open>(long long)\<close> of a floating value drops the fraction; a value whose integer
  part is no \<open>long long\<close>, an infinity and a NaN have no defined result.
\<close>

definition to_long_long :: "c_float \<Rightarrow> fault + c_llong" where
  "to_long_long a =
     (case a of
        NotFinite \<Rightarrow> Inl FloatConversion
      | Finite r \<Rightarrow>
          (let k = (if 0 \<le> r then \<lfloor>r\<rfloor> else \<lceil>r\<rceil>) in
           if - (2 ^ 63) \<le> k \<and> k < 2 ^ 63 then Inr (word_of_int k) else Inl FloatConversion))"

text \<open>
  The body of the loop that fills \<open>H\<close>: one coefficient scaled and rounded. The
  coefficient and the power are converted to \<open>long double\<close>, which holds every \<open>double\<close>;
  the product and the sum with the constant 0.5 are \<open>long double\<close> operations. The test
  \<open>>= 0\<close> is false of a NaN, and neither branch has a defined result for an infinity or
  a NaN.
\<close>

definition scale_coef :: "c_float \<Rightarrow> c_int \<Rightarrow> fault + c_llong" where
  "scale_coef v p =
     (case v of
        NotFinite \<Rightarrow> Inl FloatConversion
      | Finite x \<Rightarrow>
          if x \<ge> 0 then to_long_long (ld_add (ld_mul (Finite x) (pow10 p)) (Finite 0.5))
          else to_long_long (ld_sub (ld_mul (Finite x) (pow10 p)) (Finite 0.5)))"

text \<open>
  The \<open>long double\<close> that the cast of \<open>scale_coef\<close> receives for a finite coefficient: the
  rounded product with 0.5 added or subtracted, rounded again.
\<close>

definition scaled :: "real \<Rightarrow> c_int \<Rightarrow> c_float" where
  "scaled v p = (if 0 \<le> v then ld_add (ld_mul (Finite v) (pow10 p)) (Finite (1 / 2))
                 else ld_sub (ld_mul (Finite v) (pow10 p)) (Finite (1 / 2)))"

text \<open>The loop over the indices \<open>is\<close> of the solution \<open>h\<close>.\<close>

fun fill_H :: "(nat \<Rightarrow> c_float) \<Rightarrow> c_int \<Rightarrow> nat list \<Rightarrow> c_llong list \<Rightarrow> fault + c_llong list" where
  "fill_H h p [] hs = Inr hs"
| "fill_H h p (i # is) hs =
     (case scale_coef (h i) p of
        Inl f \<Rightarrow> Inl f
      | Inr k \<Rightarrow> fill_H h p is (hs[i := k]))"

definition find_H :: "gsl \<Rightarrow> env \<times> Calibrator \<Rightarrow> fault + bool \<times> env \<times> Calibrator" where
  "find_H solve = (\<lambda>(e, c).
     case solve (matrix_A (tuple (tuples c))) (vector_b (tuple (tuples c))) of
       Memcpy_failed \<Rightarrow> Inr (FAILURE, eprint ''ERROR: gsl memcopy failed.'' e, c)
     | LU_decomp_failed \<Rightarrow> Inr (FAILURE, eprint ''ERROR: gsl LU decomposition failed.'' e, c)
     | LU_solve_failed \<Rightarrow> Inr (FAILURE, eprint ''ERROR: gsl solver failed.'' e, c)
     | Solution h \<Rightarrow>
         (case fill_H h (precision c) [0..<8] (H c) of
            Inl f \<Rightarrow> Inl f
          | Inr hs \<Rightarrow>
              (case to_long_long (pow10 (precision c)) of
                 Inl f \<Rightarrow> Inl f
               | Inr k \<Rightarrow> Inr (SUCCESS, e, c\<lparr>H := hs[8 := k]\<rparr>))))"

subsection \<open>Files\<close>

text \<open>
  \<open>fopen(path, "w")\<close> creates or empties the file and fails where the path cannot be
  written; \<open>fopen(path, "r")\<close> fails where there is no file. What \<open>fprintf\<close> writes to an
  open file follows what the file holds. The buffers of the file names are taken to be
  long enough for \<open>device_dir\<close>, and the listing of a directory not to change in a run.
\<close>

definition fopen_w :: "string \<Rightarrow> env \<Rightarrow> env option" where
  "fopen_w path e = (if writable e path then Some (e\<lparr>files := (files e)(path \<mapsto> [])\<rparr>) else None)"

definition fputs :: "string \<Rightarrow> string \<Rightarrow> env \<Rightarrow> env" where
  "fputs path text e =
     e\<lparr>files := (files e)(path \<mapsto> (case files e path of None \<Rightarrow> [] | Some s \<Rightarrow> s) @ text)\<rparr>"

text \<open>Steps that return \<open>SUCCESS\<close> or \<open>FAILURE\<close>, run in turn up to the first \<open>FAILURE\<close>.\<close>

fun in_turn :: "('s \<Rightarrow> bool \<times> 's) list \<Rightarrow> 's \<Rightarrow> bool \<times> 's" where
  "in_turn [] s = (SUCCESS, s)"
| "in_turn (f # fs) s = (case f s of (ok, s') \<Rightarrow> if ok then in_turn fs s' else (FAILURE, s'))"

subsection \<open>The parameters of the kernel driver\<close>

text \<open>
  The macro \<open>READ(DATA)\<close> of \<open>get_ebeam_calibration\<close>. The test \<open>!(fscanf(...))\<close> takes only
  the result 0 for a failure: at the end of the input \<open>fscanf\<close> returns \<open>EOF\<close>, and the
  variable keeps its value.
\<close>

definition READ ::
  "string \<Rightarrow> ((c_int \<Rightarrow> c_int) \<Rightarrow> Calibrator \<Rightarrow> Calibrator) \<Rightarrow> env \<times> Calibrator \<Rightarrow> bool \<times> env \<times> Calibrator" where
  "READ name update = (\<lambda>(e, c).
     let fname = device_dir c @ name in
     case files e fname of
       None \<Rightarrow> (FAILURE, eprint (''ERROR: unable to open '' @ fname) e, c)
     | Some text \<Rightarrow>
         (case scan_d text of
            MatchFailure \<Rightarrow> (FAILURE, eprint (''ERROR: unable to parse '' @ fname) e, c)
          | InputFailure \<Rightarrow> (SUCCESS, e, c)
          | Converted v r \<Rightarrow> (SUCCESS, e, update (\<lambda>old. word_of_int v) c)))"

text \<open>One turn of the loop over \<open>h1\<close> to \<open>h9\<close>.\<close>

definition READ_H :: "nat \<Rightarrow> env \<times> Calibrator \<Rightarrow> bool \<times> env \<times> Calibrator" where
  "READ_H i = (\<lambda>(e, c).
     let fname = device_dir c @ ''h'' @ show_int (int i) in
     case files e fname of
       None \<Rightarrow> (FAILURE, eprint (''ERROR: unable to open '' @ fname @ '' for reading.'') e, c)
     | Some text \<Rightarrow>
         (case scan_d text of
            MatchFailure \<Rightarrow> (FAILURE, eprint (''ERROR: unable to parse '' @ fname) e, c)
          | InputFailure \<Rightarrow> (SUCCESS, e, c)
          | Converted v r \<Rightarrow> (SUCCESS, e, c\<lparr>H := (H c)[i - 1 := word_of_int v]\<rparr>)))"

definition get_ebeam_calibration :: "env \<times> Calibrator \<Rightarrow> bool \<times> env \<times> Calibrator" where
  "get_ebeam_calibration =
     in_turn ([READ ''min_x'' min_x_update, READ ''min_y'' min_y_update,
               READ ''max_x'' max_x_update, READ ''max_y'' max_y_update]
              @ map READ_H [1..<10])"

text \<open>
  The names that the loop of \<open>set_ebeam_calibration\<close> compares a directory entry with, in
  the order of its \<open>strcmp\<close> chain, each with the text written for it.
\<close>

definition parameters :: "Calibrator \<Rightarrow> (string \<times> string) list" where
  "parameters c =
     [(''min_x'', print_d (min_x c)), (''min_y'', print_d (min_y c)),
      (''max_x'', print_d (max_x c)), (''max_y'', print_d (max_y c)),
      (''h1'', print_d (H c ! 0)), (''h2'', print_d (H c ! 1)), (''h3'', print_d (H c ! 2)),
      (''h4'', print_d (H c ! 3)), (''h5'', print_d (H c ! 4)), (''h6'', print_d (H c ! 5)),
      (''h7'', print_d (H c ! 6)), (''h8'', print_d (H c ! 7)), (''h9'', print_d (H c ! 8))]"

text \<open>
  The loop over the entries of the directory; \<open>n\<close> counts the files written. The result
  is \<open>None\<close> where the loop returned \<open>FAILURE\<close>.
\<close>

fun write_entries :: "Calibrator \<Rightarrow> string list \<Rightarrow> nat \<Rightarrow> env \<Rightarrow> nat option \<times> env" where
  "write_entries c [] n e = (Some n, e)"
| "write_entries c (name # names) n e =
     (case map_of (parameters c) name of
        None \<Rightarrow> write_entries c names n e
      | Some text \<Rightarrow>
          (case fopen_w (device_dir c @ name) e of
             None \<Rightarrow> (None, eprint (''ERROR: unable to open '' @ device_dir c @ name @ '' for writing.'') e)
           | Some e1 \<Rightarrow> write_entries c names (n + 1) (fputs (device_dir c @ name) text e1)))"

definition set_ebeam_calibration :: "env \<times> Calibrator \<Rightarrow> bool \<times> env \<times> Calibrator" where
  "set_ebeam_calibration = (\<lambda>(e, c).
     case dirs e (device_dir c) of
       None \<Rightarrow> (FAILURE, eprint (''ERROR: unable to open '' @ device_dir c) e, c)
     | Some names \<Rightarrow>
         (case write_entries c names 0 e of
            (None, e1) \<Rightarrow> (FAILURE, e1, c)
          | (Some n, e1) \<Rightarrow>
              if n \<noteq> 13
              then (FAILURE, eprint (''ERROR: only '' @ show_int (int n)
                        @ '' parameters set, not in sync with ebeam kernel module ?'') e1, c)
              else
                (case fopen_w (device_dir c @ ''calibrated'') e1 of
                   None \<Rightarrow> (FAILURE, eprint (''ERROR: unable to open '' @ device_dir c
                                @ ''calibrated'' @ '' for writing.'') e1, c)
                 | Some e2 \<Rightarrow> (SUCCESS, fputs (device_dir c @ ''calibrated'') ''1'' e2, c))))"

subsection \<open>The properties of the X server\<close>

text \<open>
  The entries of the coordinate transformation matrix are \<open>float\<close> quotients of an \<open>int\<close>
  by an \<open>int\<close> cast to \<open>float\<close>. They are exact reals in the model; the quotient by 0 is
  an infinity or a NaN.
\<close>

definition fdiv :: "c_int \<Rightarrow> c_int \<Rightarrow> c_float" where
  "fdiv a b = (if b = 0 then NotFinite else Finite (real_of_int (sint a) / real_of_int (sint b)))"

definition compute_XCTM :: "Calibrator \<Rightarrow> c_float list" where
  "compute_XCTM c =
     [fdiv (max_x c - min_x c + 1) (screen_width c), Finite 0, fdiv (min_x c) (screen_width c),
      Finite 0, fdiv (max_y c - min_y c + 1) (screen_height c), fdiv (min_y c) (screen_height c),
      Finite 0, Finite 0, Finite 1]"

definition set_XCTM_to_identity :: "c_float list" where
  "set_XCTM_to_identity =
     [Finite 1, Finite 0, Finite 0,
      Finite 0, Finite 1, Finite 0,
      Finite 0, Finite 0, Finite 1]"

text \<open>\<open>XIChangeProperty\<close> with \<open>PropModeReplace\<close> on the device.\<close>

definition XIChangeProperty :: "string \<Rightarrow> xprop \<Rightarrow> env \<Rightarrow> env" where
  "XIChangeProperty name v e = e\<lparr>props := (props e)(name \<mapsto> v)\<rparr>"

definition sync_evdev_calibration :: "env \<times> Calibrator \<Rightarrow> bool \<times> env \<times> Calibrator" where
  "sync_evdev_calibration = (\<lambda>(e, c).
     if \<not> atoms e ''Evdev Axis Calibration''
     then (FAILURE, eprint ''ERROR : Evdev Axis Calibration property not found.'' e, c)
     else
       let e1 = XIChangeProperty ''Evdev Axis Calibration''
                  (Integers [min_x c, max_x c, min_y c, max_y c]) e in
       if zoned c then
         if \<not> atoms e1 ''FLOAT''
         then (FAILURE, eprint ''ERROR : Float atom not found..'' e1, c)
         else if \<not> atoms e1 ''Coordinate Transformation Matrix''
         then (FAILURE, eprint ''ERROR : Coordinate Transformation Matrix property not found.'' e1, c)
         else (SUCCESS,
               XIChangeProperty ''Coordinate Transformation Matrix'' (Floats (compute_XCTM c)) e1, c)
       else (SUCCESS, e1, c))"

definition reset_evdev_calibration :: "env \<times> Calibrator \<Rightarrow> bool \<times> env \<times> Calibrator" where
  "reset_evdev_calibration = (\<lambda>(e, c).
     if \<not> atoms e ''Evdev Axis Calibration''
     then (FAILURE, eprint ''ERROR : Evdev Axis Calibration property not found.'' e, c)
     else
       let e1 = XIChangeProperty ''Evdev Axis Calibration'' (Integers []) e in
       if \<not> atoms e1 ''FLOAT''
       then (FAILURE, eprint ''ERROR : Float atom not found..'' e1, c)
       else if \<not> atoms e1 ''Coordinate Transformation Matrix''
       then (FAILURE, eprint ''ERROR : Coordinate Transformation Matrix property not found.'' e1, c)
       else (SUCCESS,
             XIChangeProperty ''Coordinate Transformation Matrix'' (Floats set_XCTM_to_identity) e1, c))"

subsection \<open>Finishing a calibration\<close>

definition finish :: "gsl \<Rightarrow> env \<times> Calibrator \<Rightarrow> fault + bool \<times> env \<times> Calibrator" where
  "finish solve = (\<lambda>(e, c).
     if num (tuples c) \<noteq> NUM_POINTS
     then Inr (FAILURE, eprint ''ERROR: not enough points.'' e, c)
     else
       (case find_H solve (e, c) of
          Inl f \<Rightarrow> Inl f
        | Inr (ok1, e1, c1) \<Rightarrow>
            if \<not> ok1 then Inr (FAILURE, eprint ''ERROR: unable to compute H matrix.'' e1, c1)
            else
              (case test_H (e1, c1) of
                 Inl f \<Rightarrow> Inl f
               | Inr (ok2, e2, c2) \<Rightarrow>
                   if \<not> ok2 then Inr (FAILURE, eprint ''ERROR: unreliable H matrix.'' e2, c2)
                   else
                     (case set_ebeam_calibration (e2, c2) of
                        (ok3, e3, c3) \<Rightarrow>
                          if \<not> ok3
                          then Inr (FAILURE, eprint ''ERROR: unable to set eBeam calibration.'' e3, c3)
                          else
                            (case sync_evdev_calibration (e3, c3) of
                               (ok4, e4, c4) \<Rightarrow>
                                 if \<not> ok4
                                 then Inr (FAILURE, eprint ''ERROR: unable to set X calibration.'' e4, c4)
                                 else Inr (SUCCESS, e4, c4))))))"

subsection \<open>The state file\<close>

text \<open>
  \<open>VERSION\<close> is a macro of the build configuration, which is not among the sources; the
  model takes it as a parameter of \<open>do_calib_io\<close>.

  What the three groups of \<open>fprintf\<close> write to the state file, in their order: the
  version, the four bounds and the nine coefficients, a newline after each.
\<close>

definition state_text :: "string \<Rightarrow> Calibrator \<Rightarrow> string" where
  "state_text VERSION c =
     VERSION @ [newline]
     @ print_d (min_x c) @ [newline] @ print_d (max_x c) @ [newline]
     @ print_d (min_y c) @ [newline] @ print_d (max_y c) @ [newline]
     @ concat (map (\<lambda>i. print_d (H c ! i) @ [newline]) [0..<9])"

text \<open>The block \<open>saving\<close> of \<open>do_calib_io\<close>.\<close>

definition saving :: "string \<Rightarrow> env \<times> Calibrator \<Rightarrow> bool \<times> env \<times> Calibrator" where
  "saving VERSION = (\<lambda>(e, c).
     case ofile c of
       None \<Rightarrow> (SUCCESS, e, c)
     | Some path \<Rightarrow>
         (case fopen_w path e of
            None \<Rightarrow> (FAILURE, eprint (''ERROR: unable to open '' @ path @ '' for writing.'') e, c)
          | Some e1 \<Rightarrow>
              (case get_ebeam_calibration (e1, c) of
                 (ok, e2, c2) \<Rightarrow>
                   if \<not> ok
                   then (FAILURE, eprint ''ERROR: unable to retrieve actual calibration.'' e2, c2)
                   else (SUCCESS, fputs path (state_text VERSION c2) e2, c2))))"

text \<open>
  \<open>fscanf(fp, "%d\n%d\n%d\n%d\n", ...)\<close>, and any run of \<open>n\<close> such conversions: the values
  converted before the first failure, and the rest of the input.
\<close>

fun scan_ints :: "nat \<Rightarrow> string \<Rightarrow> int list \<times> string" where
  "scan_ints 0 s = ([], s)"
| "scan_ints (Suc n) s =
     (case scan_d s of
        Converted v r \<Rightarrow> (case scan_ints n (skip_space r) of (vs, r') \<Rightarrow> (v # vs, r'))
      | MatchFailure \<Rightarrow> ([], s)
      | InputFailure \<Rightarrow> ([], s))"

text \<open>The values converted are stored in the variables, in the order of the arguments.\<close>

definition store_bounds :: "int list \<Rightarrow> Calibrator \<Rightarrow> Calibrator" where
  "store_bounds vs c =
     fold (\<lambda>(update, v). update (\<lambda>old. word_of_int v))
          (zip [min_x_update, max_x_update, min_y_update, max_y_update] vs) c"

text \<open>
  The loop that reads the coefficients, over the indices \<open>is\<close>. Its test \<open>!fscanf(...)\<close>
  takes only the result 0 for a failure: at the end of the input the loop goes on and
  the coefficient keeps its value.
\<close>

fun restore_H :: "nat list \<Rightarrow> string \<Rightarrow> c_llong list \<Rightarrow> bool \<times> c_llong list" where
  "restore_H [] s hs = (SUCCESS, hs)"
| "restore_H (i # is) s hs =
     (case scan_d s of
        MatchFailure \<Rightarrow> (FAILURE, hs)
      | InputFailure \<Rightarrow> restore_H is s hs
      | Converted v r \<Rightarrow> restore_H is (skip_space r) (hs[i := word_of_int v]))"

text \<open>The two lines of the warning about the version.\<close>

definition version_check :: "string \<Rightarrow> string \<Rightarrow> env \<Rightarrow> env" where
  "version_check version VERSION e =
     (if version \<noteq> VERSION
      then eprint ''         Proceeding anyway.''
             (eprint (''WARNING: version mismatch : state file is '' @ version
                      @ '', application is '' @ VERSION @ ''.'') e)
      else e)"

text \<open>The end of the block \<open>restoring\<close>: the flag \<open>zoned\<close> and the two transfers.\<close>

definition apply_state :: "env \<times> Calibrator \<Rightarrow> bool \<times> env \<times> Calibrator" where
  "apply_state = (\<lambda>(e, c).
     let c1 = c\<lparr>zoned := \<not> (min_x c = 0 \<and> min_y c = 0
                           \<and> max_x c = screen_width c - 1 \<and> max_y c = screen_height c - 1)\<rparr> in
     case set_ebeam_calibration (e, c1) of
       (ok1, e2, c2) \<Rightarrow>
         if \<not> ok1 then (FAILURE, eprint ''ERROR: unable to set eBeam calibration.'' e2, c2)
         else
           (case sync_evdev_calibration (e2, c2) of
              (ok2, e3, c3) \<Rightarrow>
                if \<not> ok2 then (FAILURE, eprint ''ERROR: unable to set X calibration.'' e3, c3)
                else (SUCCESS, e3, c3)))"

text \<open>The block \<open>restoring\<close> of \<open>do_calib_io\<close>.\<close>

definition restoring :: "string \<Rightarrow> env \<times> Calibrator \<Rightarrow> fault + bool \<times> env \<times> Calibrator" where
  "restoring VERSION = (\<lambda>(e, c).
     case ifile c of
       None \<Rightarrow> Inr (SUCCESS, e, c)
     | Some path \<Rightarrow>
         (case files e path of
            None \<Rightarrow> Inr (FAILURE, eprint (''ERROR: unable to open '' @ path @ '' for reading.'') e, c)
          | Some text \<Rightarrow>
              (case scan_s text of
                 MatchFailure \<Rightarrow> Inr (FAILURE, eprint (''ERROR: bad state file (version) '' @ path) e, c)
               | InputFailure \<Rightarrow> Inr (FAILURE, eprint (''ERROR: bad state file (version) '' @ path) e, c)
               | Converted version r \<Rightarrow>
                   if 10 \<le> length version then Inl BufferOverrun
                   else
                     let e1 = version_check version VERSION e in
                     (case scan_ints 4 (skip_space r) of
                        (vs, r1) \<Rightarrow>
                          if length vs \<noteq> 4
                          then Inr (FAILURE, eprint (''ERROR: bad state file (min/max) '' @ path) e1,
                                    store_bounds vs c)
                          else
                            (case restore_H [0..<9] r1 (H c) of
                               (ok, hs) \<Rightarrow>
                                 if \<not> ok
                                 then Inr (FAILURE, eprint (''ERROR: bad state file (H coefs) '' @ path) e1,
                                           (store_bounds vs c)\<lparr>H := hs\<rparr>)
                                 else Inr (apply_state (e1, (store_bounds vs c)\<lparr>H := hs\<rparr>)))))))"

definition do_calib_io :: "string \<Rightarrow> env \<times> Calibrator \<Rightarrow> fault + bool \<times> env \<times> Calibrator" where
  "do_calib_io VERSION = (\<lambda>(e, c).
     if ifile c = None \<and> ofile c = None
     then Inr (FAILURE, eprint ''ERROR: No file to save/restore.'' e, c)
     else
       (case saving VERSION (e, c) of
          (ok, e1, c1) \<Rightarrow> if \<not> ok then Inr (FAILURE, e1, c1) else restoring VERSION (e1, c1)))"

subsection \<open>Frames\<close>

text \<open>
  What reading the driver's parameters leaves as it is: the files, and every field of the
  calibrator but the bounds and the entries of \<open>H\<close>.
\<close>

definition kept :: "env \<times> Calibrator \<Rightarrow> env \<times> Calibrator \<Rightarrow> bool" where
  "kept s s' \<longleftrightarrow> files (fst s') = files (fst s) \<and> writable (fst s') = writable (fst s)
     \<and> ifile (snd s') = ifile (snd s) \<and> ofile (snd s') = ofile (snd s)
     \<and> screen_width (snd s') = screen_width (snd s) \<and> screen_height (snd s') = screen_height (snd s)
     \<and> device_dir (snd s') = device_dir (snd s) \<and> length (H (snd s')) = length (H (snd s))"

text \<open>A version that \<open>%s\<close> reads back whole into \<open>char version[10]\<close>.\<close>

definition tag_fits :: "string \<Rightarrow> bool" where
  "tag_fits v \<longleftrightarrow> v \<noteq> [] \<and> list_all (\<lambda>ch. \<not> isspace ch) v \<and> length v < 10"

subsection \<open>Degenerate points\<close>






subsection \<open>Sample sessions\<close>

definition no_env :: env where
  "no_env = \<lparr>files = Map.empty, writable = (\<lambda>p. False), dirs = Map.empty,
             atoms = (\<lambda>a. False), props = Map.empty, stderr = []\<rparr>"

definition point :: "int \<Rightarrow> int \<Rightarrow> int \<Rightarrow> int \<Rightarrow> Tuple" where
  "point X Y x y = \<lparr>dev_X = word_of_int X, dev_Y = word_of_int Y,
                    scr_x = word_of_int x, scr_y = word_of_int y\<rparr>"

definition session :: "nat \<Rightarrow> Tuple list \<Rightarrow> c_llong list \<Rightarrow> Calibrator" where
  "session n ts h =
     \<lparr>device_dir = ''/sys/ebeam/'', precision = 12, threshold_doubleclick = 16,
      tuples = \<lparr>num = n, tuple = ts\<rparr>, H = h, zoned = False,
      min_x = 0, min_y = 0, max_x = 1023, max_y = 767,
      screen_width = 1024, screen_height = 768, ifile = None, ofile = None\<rparr>"

text \<open>
  Four clicks that all map to the screen point (5, 7), and a matrix at precision 9 whose
  \<open>h3\<close> is \<open>(2 ^ 32 + 5) * 10 ^ 9\<close>; the identity at precision 12 with four clicks on
  their targets.
\<close>

definition wide_session :: Calibrator where
  "wide_session = session 4 [point 0 0 5 7, point 10 0 5 7, point 0 10 5 7, point 10 10 5 7]
                            [0, 0, 4294967301000000000, 0, 0, 7000000000, 0, 0, 1000000000]"

definition identity_session :: Calibrator where
  "identity_session =
     session 4 [point 128 96 128 96, point 128 671 128 671, point 895 96 895 96, point 895 671 895 671]
               [1000000000000, 0, 0, 0, 1000000000000, 0, 0, 0, 1000000000000]"

text \<open>A library that finds the identity, and the session of four clicks on their targets.\<close>

definition identity_gsl :: gsl where
  "identity_gsl A b = Solution (\<lambda>i. if i = 0 \<or> i = 4 then Finite 1 else Finite 0)"

definition fresh_session :: Calibrator where
  "fresh_session =
     session 4 [point 128 96 128 96, point 128 671 128 671, point 895 96 895 96, point 895 671 895 671]
               [0, 0, 0, 0, 0, 0, 0, 0, 0]"

text \<open>
  An X server that knows every atom and still holds the matrix of an earlier zone; a
  session with three clicks.
\<close>

definition stale_env :: env where
  "stale_env =
     no_env\<lparr>atoms := (\<lambda>a. True),
             props := [''Coordinate Transformation Matrix'' \<mapsto>
                         Floats [Finite (1 / 2), Finite 0, Finite (1 / 4),
                                 Finite 0, Finite (1 / 2), Finite (1 / 4),
                                 Finite 0, Finite 0, Finite 1]]\<rparr>"

definition zoned_session :: Calibrator where
  "zoned_session = identity_session\<lparr>zoned := True, min_x := 256, max_x := 767, min_y := 192, max_y := 575\<rparr>"

definition three_clicks :: Calibrator where
  "three_clicks =
     session 3 [point 128 96 128 96, point 128 671 128 671, point 895 96 895 96, point 0 0 0 0]
               [1, 2, 3, 4, 5, 6, 7, 8, 9]"

text \<open>
  A state file that exists, on a system where the driver's parameters cannot be read;
  the same after a failed save.
\<close>

definition bare_env :: env where
  "bare_env = no_env\<lparr>files := [''state'' \<mapsto> ''old''], writable := (\<lambda>p. True)\<rparr>"

definition emptied_env :: env where
  "emptied_env =
     no_env\<lparr>files := [''state'' \<mapsto> ''''], writable := (\<lambda>p. True),
             stderr := [''ERROR: unable to open /sys/ebeam/min_x'',
                        ''ERROR: unable to retrieve actual calibration.'']\<rparr>"

definition save_session :: Calibrator where
  "save_session = fresh_session\<lparr>ofile := Some ''state''\<rparr>"

definition load_session :: Calibrator where
  "load_session = fresh_session\<lparr>ifile := Some ''state''\<rparr>"

text \<open>A system with the driver loaded and calibrated to the zone (256, 192) to (767, 575).\<close>

definition driver_env :: env where
  "driver_env =
     \<lparr>files = [''/sys/ebeam/min_x'' \<mapsto> ''256'', ''/sys/ebeam/min_y'' \<mapsto> ''192'',
               ''/sys/ebeam/max_x'' \<mapsto> ''767'', ''/sys/ebeam/max_y'' \<mapsto> ''575'',
               ''/sys/ebeam/h1'' \<mapsto> ''800000000000'', ''/sys/ebeam/h2'' \<mapsto> ''-5'',
               ''/sys/ebeam/h3'' \<mapsto> ''100000000000000'', ''/sys/ebeam/h4'' \<mapsto> ''0'',
               ''/sys/ebeam/h5'' \<mapsto> ''800000000000'', ''/sys/ebeam/h6'' \<mapsto> ''100000000000000'',
               ''/sys/ebeam/h7'' \<mapsto> ''0'', ''/sys/ebeam/h8'' \<mapsto> ''0'',
               ''/sys/ebeam/h9'' \<mapsto> ''1000000000000'', ''/sys/ebeam/calibrated'' \<mapsto> ''1'',
               ''state'' \<mapsto> ''old''],
      writable = (\<lambda>p. True),
      dirs = [''/sys/ebeam/'' \<mapsto>
                [''.'', ''..'', ''calibrated'', ''h1'', ''h2'', ''h3'', ''h4'', ''h5'', ''h6'', ''h7'',
                 ''h8'', ''h9'', ''max_x'', ''max_y'', ''min_x'', ''min_y'']],
      atoms = (\<lambda>a. True), props = Map.empty, stderr = []\<rparr>"

definition saved_session :: Calibrator where
  "saved_session =
     save_session\<lparr>min_x := 256, min_y := 192, max_x := 767, max_y := 575,
                  H := [800000000000, - 5, 100000000000000, 0, 800000000000, 100000000000000,
                        0, 0, 1000000000000]\<rparr>"

text \<open>The system after the driver's state was saved to the file \<open>state\<close> by version 0.9.\<close>

definition saved_env :: env where
  "saved_env = driver_env\<lparr>files := (files driver_env)(''state'' \<mapsto> state_text ''0.9'' saved_session)\<rparr>"



section \<open>Properties\<close>

subsection \<open>Double clicks\<close>

lemma double_click_iff:
  "double_click thr X Y ts n \<longleftrightarrow>
     (\<exists>i<n. c_abs (X - dev_X (ts ! i)) \<le>s thr \<and> c_abs (Y - dev_Y (ts ! i)) \<le>s thr)"
  by (induction n) (auto simp: less_Suc_eq)

lemma sint_diff_exact:
  fixes a b :: c_int
  assumes "\<bar>sint a - sint b\<bar> < 2 ^ 31"
  shows "sint (a - b) = sint a - sint b"
proof -
  from assms have "- (2 ^ 31) \<le> sint a - sint b" and "sint a - sint b < 2 ^ 31"
    by simp_all
  then show ?thesis
    by (simp add: sint_word_ariths signed_take_bit_int_eq_self_iff)
qed

lemma c_abs_sle:
  assumes "\<bar>sint a - sint b\<bar> < 2 ^ 31"
  shows "c_abs (a - b) \<le>s t \<longleftrightarrow> \<bar>sint a - sint b\<bar> \<le> sint t"
proof -
  have d: "sint (a - b) = sint a - sint b"
    using assms by (rule sint_diff_exact)
  show ?thesis
  proof (cases "a - b <s 0")
    case True
    then have neg: "sint a - sint b < 0"
      using d by (simp add: word_sless_alt)
    with assms have "- (2 ^ 31) \<le> - (sint a - sint b)" and "- (sint a - sint b) < 2 ^ 31"
      by simp_all
    then have "sint (- (a - b)) = - (sint a - sint b)"
      using d by (simp add: sint_word_ariths signed_take_bit_int_eq_self_iff)
    with True neg show ?thesis
      by (simp add: c_abs_def word_sle_eq)
  next
    case False
    then have "0 \<le> sint a - sint b"
      using d by (simp add: word_sless_alt)
    with False d show ?thesis
      by (simp add: c_abs_def word_sle_eq)
  qed
qed

text \<open>
  C4. In a collecting state (fewer than \<open>NUM_POINTS\<close> clicks stored) and with a threshold
  \<open>t\<close> that is not zero, \<open>add_click\<close> returns \<open>FAILURE\<close> and leaves the calibrator as it is
  when a stored click of this run lies within \<open>t\<close> of the new one on both device axes;
  otherwise it returns \<open>SUCCESS\<close>, stores the tuple behind the stored ones and
  increments the count by one. The coordinate differences are those of integers: they
  are assumed to fit an \<open>int\<close>, as the subtraction of the source is undefined otherwise.
\<close>

theorem add_click_debounce:
  assumes thr: "threshold_doubleclick c \<noteq> 0"
    and collecting: "num (tuples c) < NUM_POINTS"
    and array: "length (tuple (tuples c)) = NUM_POINTS"
    and exact: "\<forall>i < num (tuples c).
        \<bar>sint X - sint (dev_X (tuple (tuples c) ! i))\<bar> < 2 ^ 31
      \<and> \<bar>sint Y - sint (dev_Y (tuple (tuples c) ! i))\<bar> < 2 ^ 31"
  shows "add_click c X Y x y =
     (if \<exists>i < num (tuples c).
           \<bar>sint X - sint (dev_X (tuple (tuples c) ! i))\<bar> \<le> sint (threshold_doubleclick c)
         \<and> \<bar>sint Y - sint (dev_Y (tuple (tuples c) ! i))\<bar> \<le> sint (threshold_doubleclick c)
      then Inr (FAILURE, c)
      else Inr (SUCCESS,
             c\<lparr>tuples := \<lparr>num = num (tuples c) + 1,
                           tuple = (tuple (tuples c))
                             [num (tuples c) := \<lparr>dev_X = X, dev_Y = Y, scr_x = x, scr_y = y\<rparr>]\<rparr>\<rparr>))
    \<and> take (num (tuples c) + 1)
           ((tuple (tuples c))[num (tuples c) := \<lparr>dev_X = X, dev_Y = Y, scr_x = x, scr_y = y\<rparr>])
         = take (num (tuples c)) (tuple (tuples c)) @ [\<lparr>dev_X = X, dev_Y = Y, scr_x = x, scr_y = y\<rparr>]"
proof -
  let ?n = "num (tuples c)" and ?ts = "tuple (tuples c)" and ?t = "threshold_doubleclick c"
  let ?dup = "\<exists>i < ?n. \<bar>sint X - sint (dev_X (?ts ! i))\<bar> \<le> sint ?t
                     \<and> \<bar>sint Y - sint (dev_Y (?ts ! i))\<bar> \<le> sint ?t"
  have loop: "double_click ?t X Y ?ts ?n \<longleftrightarrow> ?dup"
    unfolding double_click_iff using exact by (metis c_abs_sle)
  have none: "\<not> ?dup" if "\<not> (0 <s ?t \<and> 0 < ?n)"
  proof
    assume ?dup
    then obtain i where "i < ?n" and "\<bar>sint X - sint (dev_X (?ts ! i))\<bar> \<le> sint ?t"
      by blast
    then have "0 < ?n" and "0 \<le> sint ?t"
      by auto
    moreover have "sint ?t \<noteq> 0"
      using thr signed_word_eqI [of ?t 0] by auto
    ultimately show False
      using that by (simp add: word_sless_alt)
  qed
  have "add_click c X Y x y =
     (if ?dup then Inr (FAILURE, c)
      else Inr (SUCCESS,
             c\<lparr>tuples := \<lparr>num = ?n + 1,
                           tuple = ?ts[?n := \<lparr>dev_X = X, dev_Y = Y, scr_x = x, scr_y = y\<rparr>]\<rparr>\<rparr>))"
  proof (cases "0 <s ?t \<and> 0 < ?n")
    case True
    with collecting loop show ?thesis
      by (cases ?dup) (simp_all add: add_click_def Let_def)
  next
    case False
    with collecting none [OF False] show ?thesis
      by (simp add: add_click_def Let_def)
  qed
  moreover have "take (?n + 1) (?ts[?n := \<lparr>dev_X = X, dev_Y = Y, scr_x = x, scr_y = y\<rparr>])
         = take ?n ?ts @ [\<lparr>dev_X = X, dev_Y = Y, scr_x = x, scr_y = y\<rparr>]"
    using collecting array by (simp add: take_Suc_conv_app_nth)
  ultimately show ?thesis
    by (rule conjI)
qed

text \<open>
  With the threshold 16 and the click (100, 200) stored, a click at (+15, -15) of it is
  rejected and a click at (+17, +17) is stored.
\<close>

theorem add_click_debounce_witness:
  "threshold_doubleclick (session 1 [point 100 200 10 20, point 0 0 0 0, point 0 0 0 0, point 0 0 0 0] []) = 16
   \<and> num (tuples (session 1 [point 100 200 10 20, point 0 0 0 0, point 0 0 0 0, point 0 0 0 0] [])) = 1
   \<and> add_click (session 1 [point 100 200 10 20, point 0 0 0 0, point 0 0 0 0, point 0 0 0 0] [])
             115 185 30 40
     = Inr (FAILURE, session 1 [point 100 200 10 20, point 0 0 0 0, point 0 0 0 0, point 0 0 0 0] [])
   \<and> add_click (session 1 [point 100 200 10 20, point 0 0 0 0, point 0 0 0 0, point 0 0 0 0] [])
             117 217 30 40
     = Inr (SUCCESS, session 2 [point 100 200 10 20, point 117 217 30 40, point 0 0 0 0, point 0 0 0 0] [])"
  using add_click_debounce [of "session 1 [point 100 200 10 20, point 0 0 0 0, point 0 0 0 0, point 0 0 0 0] []" 115 185 30 40]
        add_click_debounce [of "session 1 [point 100 200 10 20, point 0 0 0 0, point 0 0 0 0, point 0 0 0 0] []" 117 217 30 40]
  by (simp add: session_def point_def)

subsection \<open>The replay test\<close>

lemma test_point_Reproduced: "test_point h t = Inr Reproduced \<longleftrightarrow> reproduced h t"
  by (simp add: test_point_def reproduced_def Let_def)

lemma test_point_fault: "test_point h t = Inl f \<longleftrightarrow> f = DivideError \<and> denom h t \<noteq> 0 \<and> 2 * denom h t = 0"
  by (auto simp: test_point_def Let_def)

lemma test_points_SUCCESS:
  "test_points h ts p e = Inr (SUCCESS, e') \<longleftrightarrow> e' = e \<and> list_all (reproduced h) ts"
proof (induction ts arbitrary: p)
  case Nil
  show ?case by auto
next
  case (Cons t ts)
  show ?case
  proof (cases "test_point h t")
    case (Inl f)
    then have "\<not> reproduced h t"
      using test_point_Reproduced [of h t] by simp
    with Inl show ?thesis by simp
  next
    case (Inr v)
    then show ?thesis
      using Cons.IH [of "p + 1"] test_point_Reproduced [of h t]
      by (cases v) auto
  qed
qed

lemma test_points_returns:
  "list_all (\<lambda>t. 2 * denom h t = 0 \<longrightarrow> denom h t = 0) ts \<Longrightarrow> \<exists>r e'. test_points h ts p e = Inr (r, e')"
proof (induction ts arbitrary: p)
  case Nil
  show ?case by auto
next
  case (Cons t ts)
  then have "\<forall>f. test_point h t \<noteq> Inl f"
    by (auto simp: test_point_fault)
  then obtain v where v: "test_point h t = Inr v"
    by (cases "test_point h t") auto
  from Cons show ?case
    using v by (cases v) auto
qed

text \<open>
  C1, as the code has it. \<open>test_H\<close> returns \<open>SUCCESS\<close> exactly when each of the 4 tuples has a
  divisor \<open>div = h7*X + h8*Y + h9\<close> other than 0, a doubled divisor other than 0, and
  quotients \<open>(2*(h1*X + h2*Y + h3) + div) / (2*div)\<close> and \<open>(2*(h4*X + h5*Y + h6) + div) / (2*div)\<close>
  that, cast to \<open>int\<close>, are the stored screen coordinates; all of it in 64-bit two's
  complement arithmetic with the division truncating toward zero. It changes neither the
  calibrator nor, on success, the environment. When no doubled divisor is 0 unless the
  divisor is, \<open>test_H\<close> returns \<open>SUCCESS\<close> or \<open>FAILURE\<close>.
\<close>

theorem test_H_replay:
  "(test_H (e, c) = Inr (SUCCESS, e', c') \<longleftrightarrow>
      e' = e \<and> c' = c \<and>
      (\<forall>t \<in> set (take 4 (tuple (tuples c))).
         denom (H c) t \<noteq> 0 \<and> 2 * denom (H c) t \<noteq> 0
       \<and> to_int (replay_x (H c) t) = scr_x t \<and> to_int (replay_y (H c) t) = scr_y t))
   \<and> ((\<forall>t \<in> set (take 4 (tuple (tuples c))). 2 * denom (H c) t = 0 \<longrightarrow> denom (H c) t = 0)
        \<longrightarrow> (\<exists>r e''. test_H (e, c) = Inr (r, e'', c)))"
proof (rule conjI)
  have "test_H (e, c) = Inr (SUCCESS, e', c') \<longleftrightarrow>
          c' = c \<and> test_points (H c) (take 4 (tuple (tuples c))) 0 e = Inr (SUCCESS, e')"
    by (auto simp: test_H_def split: sum.splits)
  then show "test_H (e, c) = Inr (SUCCESS, e', c') \<longleftrightarrow>
      e' = e \<and> c' = c \<and>
      (\<forall>t \<in> set (take 4 (tuple (tuples c))).
         denom (H c) t \<noteq> 0 \<and> 2 * denom (H c) t \<noteq> 0
       \<and> to_int (replay_x (H c) t) = scr_x t \<and> to_int (replay_y (H c) t) = scr_y t)"
    unfolding test_points_SUCCESS by (auto simp: list_all_iff reproduced_def)
next
  show "(\<forall>t \<in> set (take 4 (tuple (tuples c))). 2 * denom (H c) t = 0 \<longrightarrow> denom (H c) t = 0)
        \<longrightarrow> (\<exists>r e''. test_H (e, c) = Inr (r, e'', c))"
  proof
    assume "\<forall>t \<in> set (take 4 (tuple (tuples c))). 2 * denom (H c) t = 0 \<longrightarrow> denom (H c) t = 0"
    then have "list_all (\<lambda>t. 2 * denom (H c) t = 0 \<longrightarrow> denom (H c) t = 0) (take 4 (tuple (tuples c)))"
      by (simp add: list_all_iff)
    from test_points_returns [OF this, of 0 e]
    show "\<exists>r e''. test_H (e, c) = Inr (r, e'', c)"
      by (auto simp: test_H_def)
  qed
qed

text \<open>The identity at precision 12 reproduces four clicks on their targets.\<close>

theorem test_H_replay_witness:
  "test_H (no_env, identity_session) = Inr (SUCCESS, no_env, identity_session)"
  using test_H_replay [of no_env identity_session no_env identity_session, THEN conjunct1]
  by (simp add: identity_session_def session_def point_def denom_def replay_x_def replay_y_def
      to_llong_def to_int_def c_div_def)

text \<open>
  C1, as the claim states it, compares the quotients themselves with the stored
  coordinates. With \<open>h3 = (2 ^ 32 + 5) * 10 ^ 9\<close>, \<open>h9 = 10 ^ 9\<close> and \<open>h7 = h8 = 0\<close> the
  quotient of the first tuple is \<open>2 ^ 32 + 5\<close>, the stored coordinate is 5, and \<open>test_H\<close>
  succeeds: the cast to \<open>int\<close> has dropped the high half. No operation overflows in this
  run.
\<close>

theorem test_H_wide_quotient_counterexample:
  "test_H (no_env, wide_session) = Inr (SUCCESS, no_env, wide_session)
   \<and> sint (replay_x (H wide_session) (tuple (tuples wide_session) ! 0)) = 4294967301
   \<and> sint (scr_x (tuple (tuples wide_session) ! 0)) = 5"
  by (simp add: test_H_def wide_session_def session_def point_def test_point_def denom_def
      replay_x_def replay_y_def to_llong_def to_int_def c_div_def)

subsection \<open>Errors of the library\<close>



subsection \<open>Finishing without four clicks\<close>

text \<open>
  C10. With a count of clicks other than 4, \<open>finish\<close> returns \<open>FAILURE\<close> and leaves the
  calibrator, with its matrix \<open>H\<close> and its tuples, as it is; the library is not called
  and only the line of the error is added to stderr.
\<close>

theorem finish_needs_four_points:
  assumes "num (tuples c) \<noteq> NUM_POINTS"
  shows "finish solve (e, c) = Inr (FAILURE, eprint ''ERROR: not enough points.'' e, c)"
  using assms by (simp add: finish_def)

text \<open>Three clicks.\<close>

theorem finish_needs_four_points_witness:
  "num (tuples three_clicks) = 3
   \<and> finish identity_gsl (no_env, three_clicks)
       = Inr (FAILURE, eprint ''ERROR: not enough points.'' no_env, three_clicks)"
  using finish_needs_four_points [of three_clicks identity_gsl no_env]
  by (simp add: three_clicks_def session_def)

subsection \<open>The coordinate transformation matrix\<close>

lemma sync_evdev_calibration_unzoned:
  assumes "\<not> zoned c" and "sync_evdev_calibration (e, c) = (r, e', c')"
  shows "props e' ''Coordinate Transformation Matrix'' = props e ''Coordinate Transformation Matrix''"
  using assms
  by (auto simp: sync_evdev_calibration_def XIChangeProperty_def eprint_def Let_def split: if_splits)

text \<open>
  C9, as the code has it. With \<open>zoned\<close> set, the atoms found and a screen whose width and
  height are not 0, \<open>sync_evdev_calibration\<close> sets the property
  \<open>Coordinate Transformation Matrix\<close> to
  \<open>[[W/screenW, 0, minX/screenW], [0, H'/screenH, minY/screenH], [0, 0, 1]]\<close> with
  \<open>W = maxX - minX + 1\<close> and \<open>H' = maxY - minY + 1\<close>. With \<open>zoned\<close> not set it writes no matrix:
  the property keeps the value it had, and the call succeeds as soon as the atom of the
  axis calibration is found.
\<close>

theorem sync_evdev_calibration_matrix:
  "(zoned c \<and> atoms e ''Evdev Axis Calibration'' \<and> atoms e ''FLOAT''
      \<and> atoms e ''Coordinate Transformation Matrix''
      \<and> screen_width c \<noteq> 0 \<and> screen_height c \<noteq> 0 \<longrightarrow>
      (\<exists>e'. sync_evdev_calibration (e, c) = (SUCCESS, e', c)
         \<and> props e' ''Coordinate Transformation Matrix'' =
             Some (Floats
               [Finite (real_of_int (sint (max_x c - min_x c + 1)) / real_of_int (sint (screen_width c))),
                Finite 0,
                Finite (real_of_int (sint (min_x c)) / real_of_int (sint (screen_width c))),
                Finite 0,
                Finite (real_of_int (sint (max_y c - min_y c + 1)) / real_of_int (sint (screen_height c))),
                Finite (real_of_int (sint (min_y c)) / real_of_int (sint (screen_height c))),
                Finite 0, Finite 0, Finite 1])))
   \<and> (\<not> zoned c \<longrightarrow>
        props (fst (snd (sync_evdev_calibration (e, c)))) ''Coordinate Transformation Matrix''
          = props e ''Coordinate Transformation Matrix''
        \<and> (fst (sync_evdev_calibration (e, c)) \<longleftrightarrow> atoms e ''Evdev Axis Calibration''))"
  by (simp add: sync_evdev_calibration_def XIChangeProperty_def eprint_def Let_def compute_XCTM_def fdiv_def)

text \<open>The zone (256, 192) to (767, 575) of a screen of 1024 by 768, and the full screen.\<close>

theorem sync_evdev_calibration_matrix_witness:
  "props (fst (snd (sync_evdev_calibration (stale_env, zoned_session)))) ''Coordinate Transformation Matrix''
     = Some (Floats [Finite (1 / 2), Finite 0, Finite (1 / 4),
                     Finite 0, Finite (1 / 2), Finite (1 / 4),
                     Finite 0, Finite 0, Finite 1])
   \<and> fst (sync_evdev_calibration (stale_env, identity_session))"
  using sync_evdev_calibration_matrix [of zoned_session stale_env]
        sync_evdev_calibration_matrix [of identity_session stale_env]
  by (auto simp add: stale_env_def no_env_def zoned_session_def identity_session_def session_def)

text \<open>
  C9, as the claim states it, has the identity emitted when \<open>zoned\<close> is not set. On a
  server that holds the matrix of an earlier zone, the synchronisation of a full-screen
  calibrator succeeds and the property still holds that matrix, which is not the identity.
\<close>

theorem sync_evdev_calibration_identity_counterexample:
  "fst (sync_evdev_calibration (stale_env, identity_session))
   \<and> zoned identity_session = False
   \<and> props (fst (snd (sync_evdev_calibration (stale_env, identity_session))))
        ''Coordinate Transformation Matrix''
     = Some (Floats [Finite (1 / 2), Finite 0, Finite (1 / 4),
                     Finite 0, Finite (1 / 2), Finite (1 / 4),
                     Finite 0, Finite 0, Finite 1])
   \<and> set_XCTM_to_identity \<noteq> [Finite (1 / 2), Finite 0, Finite (1 / 4),
                     Finite 0, Finite (1 / 2), Finite (1 / 4),
                     Finite 0, Finite 0, Finite 1]"
  by (simp add: sync_evdev_calibration_def XIChangeProperty_def stale_env_def no_env_def
      identity_session_def session_def set_XCTM_to_identity_def)

subsection \<open>What the transfers leave as it is\<close>

lemma set_ebeam_calibration_calibrator:
  "set_ebeam_calibration (e, c) = (r, e', c') \<Longrightarrow> c' = c"
  by (auto simp: set_ebeam_calibration_def split: option.splits prod.splits if_splits)

lemma sync_evdev_calibration_calibrator:
  "sync_evdev_calibration (e, c) = (r, e', c') \<Longrightarrow> c' = c"
  by (auto simp: sync_evdev_calibration_def Let_def split: if_splits)

lemma apply_state_calibrator:
  assumes "apply_state (e, c) = (r, e', c')"
  shows "c' = c\<lparr>zoned := \<not> (min_x c = 0 \<and> min_y c = 0
                           \<and> max_x c = screen_width c - 1 \<and> max_y c = screen_height c - 1)\<rparr>"
  using assms
  by (auto simp: apply_state_def Let_def split: prod.splits if_splits
           dest!: set_ebeam_calibration_calibrator sync_evdev_calibration_calibrator)

lemma READ_kept:
  assumes "\<And>f c. ifile (upd f c) = ifile c \<and> ofile (upd f c) = ofile c
             \<and> screen_width (upd f c) = screen_width c \<and> screen_height (upd f c) = screen_height c
             \<and> device_dir (upd f c) = device_dir c \<and> H (upd f c) = H c"
  shows "kept s (snd (READ name upd s))"
  using assms
  by (cases s) (auto simp: READ_def kept_def eprint_def Let_def split: option.splits scanned.splits)

lemma READ_H_kept: "kept s (snd (READ_H i s))"
  by (cases s) (auto simp: READ_H_def kept_def eprint_def Let_def split: option.splits scanned.splits)

lemma kept_refl: "kept s s"
  by (simp add: kept_def)

lemma kept_trans: "kept s s' \<Longrightarrow> kept s' s'' \<Longrightarrow> kept s s''"
  by (simp add: kept_def)

lemma in_turn_kept:
  assumes "\<And>f s. f \<in> set fs \<Longrightarrow> kept s (snd (f s))"
  shows "kept s (snd (in_turn fs s))"
  using assms
proof (induction fs arbitrary: s)
  case Nil
  show ?case by (simp add: kept_refl)
next
  case (Cons f fs)
  have step: "kept s (snd (f s))"
    using Cons.prems by simp
  obtain ok s' where fs: "f s = (ok, s')"
    by (cases "f s")
  with step have "kept s s'" by simp
  moreover have "kept s' (snd (in_turn fs s'))"
    using Cons.IH Cons.prems by simp
  ultimately show ?case
    using fs by (auto intro: kept_trans)
qed

lemma get_ebeam_calibration_kept: "kept s (snd (get_ebeam_calibration s))"
  unfolding get_ebeam_calibration_def
  by (rule in_turn_kept) (auto simp: READ_kept READ_H_kept)

lemma get_ebeam_calibration_files:
  "get_ebeam_calibration (e, c) = (r, e', c') \<Longrightarrow> files e' = files e"
  using get_ebeam_calibration_kept [of "(e, c)"] by (simp add: kept_def)

lemma write_entries_frame:
  "write_entries c names n e = (r, e') \<Longrightarrow>
     writable e' = writable e \<and> atoms e' = atoms e \<and> props e' = props e \<and> dirs e' = dirs e"
proof (induction names arbitrary: n e)
  case Nil
  then show ?case by simp
next
  case (Cons name names)
  show ?case
  proof (cases "map_of (parameters c) name")
    case None
    with Cons show ?thesis by simp
  next
    case (Some v)
    show ?thesis
    proof (cases "writable e (device_dir c @ name)")
      case False
      with Some Cons.prems show ?thesis
        by (auto simp: fopen_w_def eprint_def)
    next
      case True
      with Some Cons.prems
      have "write_entries c names (n + 1)
              (fputs (device_dir c @ name) v (e\<lparr>files := (files e)(device_dir c @ name \<mapsto> [])\<rparr>)) = (r, e')"
        by (simp add: fopen_w_def)
      from Cons.IH [OF this] show ?thesis
        by (simp add: fputs_def)
    qed
  qed
qed

lemma write_entries_count:
  assumes "\<forall>p. writable e p"
  shows "fst (write_entries c names n e)
           = Some (n + length (filter (\<lambda>name. map_of (parameters c) name \<noteq> None) names))"
  using assms
proof (induction names arbitrary: n e)
  case Nil
  show ?case by simp
next
  case (Cons name names)
  show ?case
  proof (cases "map_of (parameters c) name")
    case None
    with Cons show ?thesis by simp
  next
    case (Some v)
    have "\<forall>p. writable (fputs (device_dir c @ name) v (e\<lparr>files := (files e)(device_dir c @ name \<mapsto> [])\<rparr>)) p"
      using Cons.prems by (simp add: fputs_def)
    from Cons.IH [OF this, of "n + 1"] Some Cons.prems show ?thesis
      by (simp add: fopen_w_def)
  qed
qed

lemma apply_state_succeeds:
  assumes w: "\<forall>p. writable e p" and a: "\<forall>x. atoms e x"
    and d: "dirs e (device_dir c) =
              Some [''.'', ''..'', ''calibrated'', ''h1'', ''h2'', ''h3'', ''h4'', ''h5'', ''h6'', ''h7'',
                    ''h8'', ''h9'', ''max_x'', ''max_y'', ''min_x'', ''min_y'']"
  shows "fst (apply_state (e, c))"
proof -
  let ?c = "c\<lparr>zoned := \<not> (min_x c = 0 \<and> min_y c = 0
                           \<and> max_x c = screen_width c - 1 \<and> max_y c = screen_height c - 1)\<rparr>"
  let ?names = "[''.'', ''..'', ''calibrated'', ''h1'', ''h2'', ''h3'', ''h4'', ''h5'', ''h6'', ''h7'',
                    ''h8'', ''h9'', ''max_x'', ''max_y'', ''min_x'', ''min_y'']"
  obtain r e1 where we: "write_entries ?c ?names 0 e = (r, e1)"
    by (cases "write_entries ?c ?names 0 e") auto
  have "r = Some 13"
    using write_entries_count [OF w, of ?c ?names 0] we by (simp add: parameters_def)
  moreover from write_entries_frame [OF we] w a
  have "\<forall>p. writable e1 p" and "\<forall>x. atoms e1 x"
    by simp_all
  ultimately have s: "\<exists>e2. set_ebeam_calibration (e, ?c) = (SUCCESS, e2, ?c) \<and> (\<forall>x. atoms e2 x)"
    using d we by (simp add: set_ebeam_calibration_def fopen_w_def fputs_def)
  then obtain e2 where s2: "set_ebeam_calibration (e, ?c) = (SUCCESS, e2, ?c)" and a2: "\<forall>x. atoms e2 x"
    by blast
  have "fst (sync_evdev_calibration (e2, ?c))"
    using a2 by (simp add: sync_evdev_calibration_def XIChangeProperty_def Let_def)
  then obtain e3 c3 where "sync_evdev_calibration (e2, ?c) = (SUCCESS, e3, c3)"
    by (cases "sync_evdev_calibration (e2, ?c)") auto
  with s2 show ?thesis
    by (simp add: apply_state_def Let_def)
qed

subsection \<open>Printing and scanning\<close>

lemma digit_cases: "d < 10 \<Longrightarrow> d \<in> {0, 1, 2, 3, 4, 5, 6, 7, 8, 9::nat}"
  by auto

lemma digit_char_props:
  assumes "d < 10"
  shows "isdigit (digit_char d)" and "digit_val (digit_char d) = d"
    and "\<not> isspace (digit_char d)" and "digit_char d \<noteq> CHR ''-''" and "digit_char d \<noteq> CHR ''+''"
  using digit_cases [OF assms]
  by (auto simp: isdigit_def digit_char_def digit_val_def isspace_def)

lemma show_nat_digits: "list_all isdigit (show_nat n)"
proof (induction n rule: show_nat.induct)
  case (1 n)
  then show ?case
    by (subst show_nat.simps) (simp add: digit_char_props)
qed

lemma show_nat_not_Nil: "show_nat n \<noteq> []"
  by (subst show_nat.simps) simp

lemma digits_val_snoc: "digits_val (ds @ [ch]) = 10 * digits_val ds + digit_val ch"
  by (simp add: digits_val_def)

lemma digits_val_show_nat: "digits_val (show_nat n) = n"
proof (induction n rule: show_nat.induct)
  case (1 n)
  show ?case
  proof (cases "n < 10")
    case True
    then show ?thesis
      by (subst show_nat.simps) (simp add: digits_val_def digit_char_props)
  next
    case False
    with 1 show ?thesis
      by (subst show_nat.simps) (simp add: digits_val_snoc digit_char_props)
  qed
qed

lemma show_nat_hd: "\<exists>ch r. show_nat n = ch # r \<and> isdigit ch"
  using show_nat_digits [of n] show_nat_not_Nil [of n]
  by (cases "show_nat n") auto

lemma isdigit_not_space: "isdigit ch \<Longrightarrow> \<not> isspace ch"
  by (auto simp: isdigit_def isspace_def)

lemma isdigit_not_sign: "isdigit ch \<Longrightarrow> ch \<noteq> CHR ''-'' \<and> ch \<noteq> CHR ''+''"
  by (auto simp: isdigit_def)

lemma isspace_newline: "isspace newline" and not_isdigit_newline: "\<not> isdigit newline"
  by (simp_all add: isspace_def isdigit_def newline_def)

lemma takeWhile_digits: "list_all isdigit ds \<Longrightarrow> takeWhile isdigit (ds @ newline # s) = ds"
  by (induction ds) (simp_all add: not_isdigit_newline)

lemma dropWhile_digits: "list_all isdigit ds \<Longrightarrow> dropWhile isdigit (ds @ newline # s) = newline # s"
  by (induction ds) (simp_all add: not_isdigit_newline)

text \<open>A number printed, then a newline: \<open>%d\<close> reads the number and stops before the newline.\<close>

lemma scan_d_show_int: "scan_d (show_int k @ newline # s) = Converted k (newline # s)"
proof (cases "k < 0")
  case True
  then show ?thesis
    by (simp add: scan_d_def show_int_def isspace_def Let_def takeWhile_digits dropWhile_digits
        show_nat_digits show_nat_not_Nil digits_val_show_nat)
next
  case False
  obtain ch r where sh: "show_nat (nat k) = ch # r" and d: "isdigit ch"
    using show_nat_hd by blast
  have tw: "takeWhile isdigit ((ch # r) @ newline # s) = ch # r"
    and dw: "dropWhile isdigit ((ch # r) @ newline # s) = newline # s"
    using show_nat_digits [of "nat k"] by (simp_all only: sh [symmetric] takeWhile_digits dropWhile_digits)
  have "digits_val (ch # r) = nat k"
    using digits_val_show_nat [of "nat k"] by (simp only: sh)
  with False d tw dw show ?thesis
    using isdigit_not_space [OF d] isdigit_not_sign [OF d]
    by (simp add: scan_d_def show_int_def sh Let_def)
qed

lemma scan_d_print_d: "scan_d (print_d w @ newline # s) = Converted (sint w) (newline # s)"
  by (simp add: print_d_def scan_d_show_int)

lemma show_int_hd: "\<exists>ch r. show_int k = ch # r \<and> \<not> isspace ch"
proof (cases "k < 0")
  case True
  then show ?thesis by (simp add: show_int_def isspace_def)
next
  case False
  then show ?thesis
    using show_nat_hd [of "nat k"] by (auto simp: show_int_def dest: isdigit_not_space)
qed

lemma skip_space_print_d: "skip_space (print_d w @ s) = print_d w @ s"
  using show_int_hd [of "sint w"] by (auto simp: skip_space_def print_d_def)

lemma skip_space_newline: "skip_space (newline # s) = skip_space s"
  by (simp add: skip_space_def isspace_newline)

text \<open>The lines of the coefficients, read back by the loop.\<close>

lemma skip_space_lines:
  "skip_space (concat (map (\<lambda>i. print_d (g i) @ [newline]) js))
     = concat (map (\<lambda>i. print_d (g i) @ [newline]) js)"
proof (cases js)
  case Nil
  then show ?thesis by (simp add: skip_space_def)
next
  case (Cons j js')
  then show ?thesis
    using skip_space_print_d [of "g j"] by simp
qed

lemma restore_H_lines:
  fixes g :: "nat \<Rightarrow> c_llong"
  shows "restore_H js (concat (map (\<lambda>i. print_d (g i) @ [newline]) js)) hs
           = (SUCCESS, fold (\<lambda>i h. h[i := g i]) js hs)"
proof (induction js arbitrary: hs)
  case Nil
  show ?case by simp
next
  case (Cons j js)
  show ?case
    using Cons.IH [of "hs[j := g j]"]
    by (simp add: scan_d_print_d skip_space_newline skip_space_lines)
qed

lemma fold_update_upt:
  "n \<le> length hs \<Longrightarrow> fold (\<lambda>i h. h[i := g i]) [0..<n] hs = map g [0..<n] @ drop n hs"
proof (induction n)
  case 0
  show ?case by simp
next
  case (Suc n)
  then have "n < length hs" by simp
  then have "(map g [0..<n] @ drop n hs)[n := g n] = map g [0..<n] @ g n # drop (Suc n) hs"
    by (simp add: list_update_append upd_conv_take_nth_drop drop_Suc [symmetric] Cons_nth_drop_Suc)
  with Suc show ?case
    by simp
qed

lemma restore_H_state:
  assumes "length hs = 9" and "length vs = 9"
  shows "restore_H [0..<9] (concat (map (\<lambda>i. print_d (vs ! i) @ [newline]) [0..<9])) hs = (SUCCESS, vs)"
proof -
  have "fold (\<lambda>i h. h[i := vs ! i]) [0..<9] hs = map (\<lambda>i. vs ! i) [0..<9] @ drop 9 hs"
    using assms(1) by (simp add: fold_update_upt)
  also have "\<dots> = vs"
    using assms map_nth [of vs] by simp
  finally show ?thesis
    by (simp only: restore_H_lines)
qed

subsection \<open>Saving\<close>

lemma saving_kept_fields:
  assumes "saving V (e, c) = (r, e1, c1)"
  shows "ifile c1 = ifile c \<and> screen_width c1 = screen_width c \<and> screen_height c1 = screen_height c
         \<and> length (H c1) = length (H c)"
proof (cases "ofile c")
  case None
  with assms show ?thesis by (simp add: saving_def)
next
  case (Some path)
  show ?thesis
  proof (cases "fopen_w path e")
    case None
    with Some assms show ?thesis by (simp add: saving_def)
  next
    case (Some e0)
    have "kept (e0, c) (snd (get_ebeam_calibration (e0, c)))"
      by (rule get_ebeam_calibration_kept)
    moreover have "c1 = snd (snd (get_ebeam_calibration (e0, c)))"
      using assms \<open>ofile c = Some path\<close> Some
      by (auto simp: saving_def split: prod.splits if_splits)
    ultimately show ?thesis
      by (simp add: kept_def)
  qed
qed

lemma saving_files:
  assumes "ofile c = Some p" and "saving V (e, c) = (r, e', c')"
  shows "files e' = (if \<not> writable e p then files e
                     else (files e)(p \<mapsto> (if r then state_text V c' else [])))"
proof (cases "writable e p")
  case False
  with assms show ?thesis
    by (auto simp: saving_def fopen_w_def eprint_def)
next
  case True
  obtain ok e2 c2 where g: "get_ebeam_calibration (e\<lparr>files := (files e)(p \<mapsto> [])\<rparr>, c) = (ok, e2, c2)"
    by (cases "get_ebeam_calibration (e\<lparr>files := (files e)(p \<mapsto> [])\<rparr>, c)") auto
  from get_ebeam_calibration_files [OF g] have f2: "files e2 = (files e)(p \<mapsto> [])"
    by simp
  show ?thesis
  proof (cases ok)
    case True
    with assms \<open>writable e p\<close> g f2 show ?thesis
      by (auto simp: saving_def fopen_w_def fputs_def)
  next
    case False
    with assms \<open>writable e p\<close> g f2 show ?thesis
      by (auto simp: saving_def fopen_w_def eprint_def)
  qed
qed

lemma do_calib_io_save_only:
  assumes "ofile c = Some p" and "ifile c = None"
  shows "do_calib_io V (e, c) = Inr (saving V (e, c))"
proof -
  obtain r e' c' where s: "saving V (e, c) = (r, e', c')"
    by (cases "saving V (e, c)") auto
  from saving_kept_fields [OF s] assms(2) have "ifile c' = None"
    by simp
  with s assms(1) show ?thesis
    by (cases r) (simp_all add: do_calib_io_def restoring_def)
qed

text \<open>The save of the sample system, evaluated: the driver's parameters read and written.\<close>

lemmas scan_eval = scan_d_def isspace_def isdigit_def digits_val_def digit_val_def Let_def

lemma sample_fields:
  "ofile save_session = Some ''state''" "ifile save_session = None" "length (H save_session) = 9"
  "ifile load_session = Some ''state''" "ofile load_session = None" "length (H load_session) = 9"
  "device_dir load_session = ''/sys/ebeam/''"
  "screen_width load_session = 1024" "screen_height load_session = 768"
  "min_x saved_session = 256" "min_y saved_session = 192" "max_x saved_session = 767"
  "max_y saved_session = 575" "length (H saved_session) = 9"
  by (simp_all add: save_session_def load_session_def saved_session_def fresh_session_def session_def)

lemma driver_parameters_read:
  "get_ebeam_calibration (driver_env\<lparr>files := (files driver_env)(''state'' \<mapsto> [])\<rparr>, save_session)
     = (SUCCESS, driver_env\<lparr>files := (files driver_env)(''state'' \<mapsto> [])\<rparr>, saved_session)"
  by (simp add: get_ebeam_calibration_def READ_def READ_H_def scan_eval show_int_def show_nat.simps
      digit_char_def upt_rec driver_env_def save_session_def saved_session_def fresh_session_def
      session_def)

lemma driver_state_saved:
  "do_calib_io ''0.9'' (driver_env, save_session) = Inr (SUCCESS, saved_env, saved_session)"
proof -
  have "saving ''0.9'' (driver_env, save_session) = (SUCCESS, saved_env, saved_session)"
    using driver_parameters_read
    by (simp add: saving_def fopen_w_def fputs_def saved_env_def save_session_def driver_env_def)
  moreover have "ofile save_session = Some ''state''" and "ifile save_session = None"
    by (simp_all add: save_session_def fresh_session_def session_def)
  ultimately show ?thesis
    by (simp add: do_calib_io_save_only)
qed

text \<open>
  C6, as the code has it. A run of \<open>do_calib_io\<close> that only saves opens the target file
  first, which empties it, and reads the parameters of the driver afterwards. It ends in
  one of three ways: the file cannot be opened, and no file is changed; the parameters
  cannot be read, and the target is left empty; or the complete text of the state is in
  the target. No other file changes. (The results of \<open>fprintf\<close> and \<open>fclose\<close> are not
  tested by the code; their failures are outside the model.)
\<close>

theorem saving_empties_first:
  assumes "ofile c = Some p" and "ifile c = None"
  shows "\<exists>r e' c'. do_calib_io V (e, c) = Inr (r, e', c')
           \<and> (\<not> writable e p \<longrightarrow> \<not> r \<and> files e' = files e)
           \<and> (writable e p \<and> \<not> r \<longrightarrow> files e' = (files e)(p \<mapsto> []))
           \<and> (r \<longrightarrow> writable e p \<and> files e' = (files e)(p \<mapsto> state_text V c'))"
proof -
  obtain r e' c' where s: "saving V (e, c) = (r, e', c')"
    by (cases "saving V (e, c)") auto
  have "\<not> r" if "\<not> writable e p"
    using that s assms(1) by (auto simp: saving_def fopen_w_def)
  with saving_files [OF assms(1) s] do_calib_io_save_only [OF assms, of V e] s
  show ?thesis
    by auto
qed

text \<open>A save on a system with the driver loaded: the target holds the whole state.\<close>

theorem saving_empties_first_witness:
  "ofile save_session = Some ''state'' \<and> ifile save_session = None
   \<and> do_calib_io ''0.9'' (driver_env, save_session) = Inr (SUCCESS, saved_env, saved_session)
   \<and> files saved_env = (files driver_env)(''state'' \<mapsto> state_text ''0.9'' saved_session)"
  using saving_empties_first [of save_session "''state''" "''0.9''" driver_env]
    driver_state_saved sample_fields(1,2)
  by (simp add: saved_env_def)

text \<open>
  C6, as the claim states it, leaves the target untouched when the save fails. Where the
  parameters of the driver cannot be read, the save of a calibrator whose target \<open>state\<close>
  holds the text \<open>old\<close> returns \<open>FAILURE\<close> and the target is empty: neither its former
  content nor a complete state.
\<close>

theorem saving_empties_first_counterexample:
  "do_calib_io ''0.9'' (bare_env, save_session) = Inr (FAILURE, emptied_env, save_session)
   \<and> files bare_env ''state'' = Some ''old''
   \<and> files emptied_env ''state'' = Some ''''"
  by (simp add: do_calib_io_def saving_def fopen_w_def get_ebeam_calibration_def READ_def eprint_def
      bare_env_def emptied_env_def no_env_def save_session_def fresh_session_def session_def)

subsection \<open>Restoring\<close>

lemma scan_s_tag:
  assumes "tag_fits v"
  shows "scan_s (v @ newline # s) = Converted v (newline # s)"
proof -
  from assms obtain ch r where v: "v = ch # r" and ns: "list_all (\<lambda>x. \<not> isspace x) (ch # r)"
    by (cases v) (auto simp: tag_fits_def)
  have "takeWhile (\<lambda>x. \<not> isspace x) (v @ newline # s) = v"
    and "dropWhile (\<lambda>x. \<not> isspace x) (v @ newline # s) = newline # s"
    using ns unfolding v [symmetric]
    by (induction v) (simp_all add: isspace_newline)
  with v ns show ?thesis
    by (simp add: scan_s_def)
qed

lemma scan_ints_4:
  "scan_ints 4 s =
     (case scan_d s of
        Converted v r \<Rightarrow> (case scan_ints 3 (skip_space r) of (vs, r') \<Rightarrow> (v # vs, r'))
      | MatchFailure \<Rightarrow> ([], s)
      | InputFailure \<Rightarrow> ([], s))"
  and scan_ints_3:
  "scan_ints 3 s =
     (case scan_d s of
        Converted v r \<Rightarrow> (case scan_ints 2 (skip_space r) of (vs, r') \<Rightarrow> (v # vs, r'))
      | MatchFailure \<Rightarrow> ([], s)
      | InputFailure \<Rightarrow> ([], s))"
  and scan_ints_2:
  "scan_ints 2 s =
     (case scan_d s of
        Converted v r \<Rightarrow> (case scan_ints 1 (skip_space r) of (vs, r') \<Rightarrow> (v # vs, r'))
      | MatchFailure \<Rightarrow> ([], s)
      | InputFailure \<Rightarrow> ([], s))"
  and scan_ints_1:
  "scan_ints 1 s =
     (case scan_d s of
        Converted v r \<Rightarrow> ([v], skip_space r)
      | MatchFailure \<Rightarrow> ([], s)
      | InputFailure \<Rightarrow> ([], s))"
  by (simp_all add: numeral_eq_Suc split: scanned.splits)

lemma scan_ints_bounds:
  "scan_ints 4 (skip_space (newline # print_d (a::c_int) @ newline # print_d (b::c_int) @ newline
                  # print_d (c::c_int) @ newline # print_d (d::c_int) @ newline # s))
     = ([sint a, sint b, sint c, sint d], skip_space s)"
  by (simp add: scan_ints_4 scan_ints_3 scan_ints_2 scan_ints_1 skip_space_newline
      skip_space_print_d scan_d_print_d)

lemma store_bounds_4:
  "store_bounds [sint a, sint b, sint c, sint d] x
     = x\<lparr>min_x := a, max_x := b, min_y := c, max_y := d\<rparr>"
  by (simp add: store_bounds_def)

lemma restoring_state_text:
  assumes tag: "tag_fits v" and i: "ifile d = Some p"
    and f: "files e p = Some (state_text v c)"
    and ld: "length (H d) = 9" and lc: "length (H c) = 9"
  shows "restoring V (e, d) =
           Inr (apply_state (version_check v V e,
                  d\<lparr>min_x := min_x c, max_x := max_x c, min_y := min_y c, max_y := max_y c,
                    H := H c\<rparr>))"
proof -
  let ?lines = "concat (map (\<lambda>i. print_d (H c ! i) @ [newline]) [0..<9])"
  have body: "state_text v c = v @ newline # print_d (min_x c) @ newline # print_d (max_x c) @ newline
                # print_d (min_y c) @ newline # print_d (max_y c) @ newline # ?lines"
    by (simp add: state_text_def)
  have s: "scan_s (state_text v c) = Converted v (newline # print_d (min_x c) @ newline # print_d (max_x c) @ newline
                # print_d (min_y c) @ newline # print_d (max_y c) @ newline # ?lines)"
    unfolding body by (rule scan_s_tag [OF tag])
  have len: "\<not> 10 \<le> length v"
    using tag by (simp add: tag_fits_def)
  have b: "scan_ints 4 (skip_space (newline # print_d (min_x c) @ newline # print_d (max_x c) @ newline
                # print_d (min_y c) @ newline # print_d (max_y c) @ newline # ?lines))
             = ([sint (min_x c), sint (max_x c), sint (min_y c), sint (max_y c)], ?lines)"
    by (simp only: scan_ints_bounds skip_space_lines)
  have h: "restore_H [0..<9] ?lines (H d) = (SUCCESS, H c)"
    using ld lc by (rule restore_H_state)
  have sb: "H (store_bounds [sint (min_x c), sint (max_x c), sint (min_y c), sint (max_y c)] d) = H d"
    by (simp add: store_bounds_4)
  show ?thesis
    unfolding restoring_def
    by (simp add: i f s len b h sb store_bounds_4 del: upt_Suc)
qed

lemma map_nth_f: "map (\<lambda>i. f (xs ! i)) [0..<length xs] = map f xs"
  by (rule nth_equalityI) simp_all

lemma state_text_tokens:
  assumes "length (H c) = 9"
  shows "state_text V c =
           concat (map (\<lambda>t. t @ [newline])
             ([V, print_d (min_x c), print_d (max_x c), print_d (min_y c), print_d (max_y c)]
              @ map print_d (H c)))"
proof -
  have "map (\<lambda>i. print_d (H c ! i) @ [newline]) [0..<length (H c)] = map (\<lambda>w. print_d w @ [newline]) (H c)"
    by (rule map_nth_f)
  then have "map (\<lambda>i. print_d (H c ! i) @ [newline]) [0..<9] = map (\<lambda>w. print_d w @ [newline]) (H c)"
    by (simp only: assms)
  then show ?thesis
    by (simp add: state_text_def comp_def del: upt_Suc)
qed

lemma do_calib_io_restore_only:
  assumes "ofile d = None"
  shows "do_calib_io V (e, d) = (if ifile d = None then Inr (FAILURE, eprint ''ERROR: No file to save/restore.'' e, d)
                                 else restoring V (e, d))"
  using assms by (simp add: do_calib_io_def saving_def)

lemma tag_fits_0_9: "tag_fits ''0.9''"
  by (simp add: tag_fits_def isspace_def)

text \<open>
  C5. A successful save writes the 14 tokens version, \<open>min_x\<close>, \<open>max_x\<close>, \<open>min_y\<close>, \<open>max_y\<close>,
  \<open>h1\<close> to \<open>h9\<close>, each in decimal and followed by a newline. Restoring that file, under
  any running version \<open>V'\<close>, gives back the four bounds and the nine coefficients, then
  goes on to the transfers; a version other than the saved one adds the two lines of
  the warning to stderr and nothing else.
\<close>

theorem state_file_round_trip:
  assumes tag: "tag_fits V"
    and out: "ofile c = Some p" "ifile c = None" "length (H c) = 9"
    and saved: "do_calib_io V (e, c) = Inr (SUCCESS, e1, c1)"
    and inp: "ifile d = Some p" "ofile d = None" "length (H d) = 9"
  shows "files e1 p = Some (concat (map (\<lambda>t. t @ [newline])
             ([V, print_d (min_x c1), print_d (max_x c1), print_d (min_y c1), print_d (max_y c1)]
              @ map print_d (H c1))))
       \<and> length (H c1) = 9
       \<and> (\<exists>r e2 d2. do_calib_io V' (e1, d) = Inr (r, e2, d2)
             \<and> min_x d2 = min_x c1 \<and> max_x d2 = max_x c1 \<and> min_y d2 = min_y c1 \<and> max_y d2 = max_y c1
             \<and> H d2 = H c1)
       \<and> do_calib_io V' (e1, d) =
           Inr (apply_state (version_check V V' e1,
                  d\<lparr>min_x := min_x c1, max_x := max_x c1, min_y := min_y c1, max_y := max_y c1,
                    H := H c1\<rparr>))
       \<and> stderr (version_check V V' e1) =
           stderr e1 @ (if V = V' then []
                        else [''WARNING: version mismatch : state file is '' @ V
                                @ '', application is '' @ V' @ ''.'',
                              ''         Proceeding anyway.''])"
proof -
  from saved have s: "saving V (e, c) = (SUCCESS, e1, c1)"
    by (simp add: do_calib_io_save_only [OF out(1,2)])
  from saving_kept_fields [OF s] out(3) have l1: "length (H c1) = 9"
    by simp
  have w: "writable e p"
    using s out(1) by (auto simp: saving_def fopen_w_def split: if_splits)
  from saving_files [OF out(1) s] w have f: "files e1 p = Some (state_text V c1)"
    by simp
  have r: "do_calib_io V' (e1, d) =
           Inr (apply_state (version_check V V' e1,
                  d\<lparr>min_x := min_x c1, max_x := max_x c1, min_y := min_y c1, max_y := max_y c1,
                    H := H c1\<rparr>))"
    using restoring_state_text [OF tag inp(1) f inp(3) l1, of V'] inp(1,2)
    by (simp add: do_calib_io_restore_only)
  obtain r' e2 d2 where a: "apply_state (version_check V V' e1,
                  d\<lparr>min_x := min_x c1, max_x := max_x c1, min_y := min_y c1, max_y := max_y c1,
                    H := H c1\<rparr>) = (r', e2, d2)"
    using prod_cases3 by blast
  have fields: "min_x d2 = min_x c1 \<and> max_x d2 = max_x c1 \<and> min_y d2 = min_y c1 \<and> max_y d2 = max_y c1
             \<and> H d2 = H c1"
    using apply_state_calibrator [OF a] by simp
  have "\<exists>r e2 d2. do_calib_io V' (e1, d) = Inr (r, e2, d2)
             \<and> min_x d2 = min_x c1 \<and> max_x d2 = max_x c1 \<and> min_y d2 = min_y c1 \<and> max_y d2 = max_y c1
             \<and> H d2 = H c1"
    using r a fields by auto
  moreover have "stderr (version_check V V' e1) =
           stderr e1 @ (if V = V' then []
                        else [''WARNING: version mismatch : state file is '' @ V
                                @ '', application is '' @ V' @ ''.'',
                              ''         Proceeding anyway.''])"
    by (simp add: version_check_def eprint_def)
  ultimately show ?thesis
    using f l1 r by (simp only: state_text_tokens [OF l1] simp_thms)
qed

text \<open>The state saved by version 0.9 and restored by version 1.0.\<close>

theorem state_file_round_trip_witness:
  "tag_fits ''0.9''
   \<and> do_calib_io ''0.9'' (driver_env, save_session) = Inr (SUCCESS, saved_env, saved_session)
   \<and> files saved_env ''state'' = Some (state_text ''0.9'' saved_session)
   \<and> min_x (snd (snd (projr (do_calib_io ''1.0'' (saved_env, load_session))))) = 256
   \<and> max_x (snd (snd (projr (do_calib_io ''1.0'' (saved_env, load_session))))) = 767
   \<and> min_y (snd (snd (projr (do_calib_io ''1.0'' (saved_env, load_session))))) = 192
   \<and> max_y (snd (snd (projr (do_calib_io ''1.0'' (saved_env, load_session))))) = 575
   \<and> H (snd (snd (projr (do_calib_io ''1.0'' (saved_env, load_session)))))
       = [800000000000, - 5, 100000000000000, 0, 800000000000, 100000000000000, 0, 0, 1000000000000]"
proof -
  from state_file_round_trip [OF tag_fits_0_9 sample_fields(1,2,3) driver_state_saved
         sample_fields(4,5,6), of "''1.0''"]
  obtain r e2 d2 where "do_calib_io ''1.0'' (saved_env, load_session) = Inr (r, e2, d2)"
    and "min_x d2 = min_x saved_session" and "max_x d2 = max_x saved_session"
    and "min_y d2 = min_y saved_session" and "max_y d2 = max_y saved_session"
    and "H d2 = H saved_session"
    by blast
  moreover have "H saved_session
       = [800000000000, - 5, 100000000000000, 0, 800000000000, 100000000000000, 0, 0, 1000000000000]"
    by (simp add: saved_session_def)
  moreover have "files saved_env ''state'' = Some (state_text ''0.9'' saved_session)"
    by (simp add: saved_env_def)
  ultimately show ?thesis
    using tag_fits_0_9 driver_state_saved sample_fields(10-13) by simp
qed

subsection \<open>The flag of the zone\<close>

lemma store_bounds_fields:
  "screen_width (store_bounds vs c) = screen_width c \<and> screen_height (store_bounds vs c) = screen_height c"
proof -
  have "vs = [] \<or> (\<exists>a. vs = [a]) \<or> (\<exists>a b. vs = [a, b]) \<or> (\<exists>a b d. vs = [a, b, d])
        \<or> (\<exists>a b d f ws. vs = a # b # d # f # ws)"
    by (metis list.exhaust)
  then show ?thesis
    by (auto simp: store_bounds_def)
qed

lemma saved_env_fields:
  "\<forall>p. writable saved_env p" "\<forall>x. atoms saved_env x"
  "dirs saved_env ''/sys/ebeam/'' =
     Some [''.'', ''..'', ''calibrated'', ''h1'', ''h2'', ''h3'', ''h4'', ''h5'', ''h6'', ''h7'',
           ''h8'', ''h9'', ''max_x'', ''max_y'', ''min_x'', ''min_y'']"
  "files saved_env ''state'' = Some (state_text ''0.9'' saved_session)"
  by (simp_all add: saved_env_def driver_env_def)

text \<open>
  C8. After every successful \<open>do_calib_io\<close> that restores a state file, \<open>zoned\<close> is false
  exactly when \<open>min_x = 0\<close>, \<open>min_y = 0\<close>, \<open>max_x = screen_width - 1\<close> and
  \<open>max_y = screen_height - 1\<close>, for the bounds just restored and the screen geometry of the
  calibrator, which the call does not change.
\<close>

theorem do_calib_io_zoned:
  assumes "do_calib_io V (e, c) = Inr (SUCCESS, e', c')" and "ifile c \<noteq> None"
  shows "(zoned c' \<longleftrightarrow> \<not> (min_x c' = 0 \<and> min_y c' = 0
             \<and> max_x c' = screen_width c - 1 \<and> max_y c' = screen_height c - 1))
         \<and> screen_width c' = screen_width c \<and> screen_height c' = screen_height c"
proof -
  from assms(1) obtain e1 c1 where sav: "saving V (e, c) = (SUCCESS, e1, c1)"
    and res: "restoring V (e1, c1) = Inr (SUCCESS, e', c')"
    by (auto simp: do_calib_io_def split: prod.splits if_splits)
  from saving_kept_fields [OF sav] assms(2)
  have c1: "ifile c1 \<noteq> None" "screen_width c1 = screen_width c" "screen_height c1 = screen_height c"
    by simp_all
  from res c1(1) obtain e2 vs hs where app: "apply_state (e2, (store_bounds vs c1)\<lparr>H := hs\<rparr>) = (SUCCESS, e', c')"
    by (auto simp: restoring_def Let_def split: option.splits scanned.splits if_splits prod.splits)
  from apply_state_calibrator [OF app] c1 show ?thesis
    by (simp add: store_bounds_fields)
qed

text \<open>Restoring the zone (256, 192) to (767, 575) on a screen of 1024 by 768 sets \<open>zoned\<close>.\<close>

theorem do_calib_io_zoned_witness:
  "ifile load_session = Some ''state''
   \<and> fst (projr (do_calib_io ''0.9'' (saved_env, load_session)))
   \<and> zoned (snd (snd (projr (do_calib_io ''0.9'' (saved_env, load_session)))))
   \<and> min_x (snd (snd (projr (do_calib_io ''0.9'' (saved_env, load_session))))) = 256"
proof -
  let ?d = "load_session\<lparr>min_x := min_x saved_session, max_x := max_x saved_session,
                         min_y := min_y saved_session, max_y := max_y saved_session,
                         H := H saved_session\<rparr>"
  have run: "do_calib_io ''0.9'' (saved_env, load_session)
               = Inr (apply_state (version_check ''0.9'' ''0.9'' saved_env, ?d))"
    using restoring_state_text [OF tag_fits_0_9 sample_fields(4) saved_env_fields(4)
            sample_fields(6) sample_fields(14), of "''0.9''"]
    by (simp add: do_calib_io_restore_only sample_fields)
  have ok: "fst (apply_state (saved_env, ?d))"
    by (rule apply_state_succeeds) (simp_all add: saved_env_fields sample_fields)
  obtain e' c' where a: "apply_state (saved_env, ?d) = (SUCCESS, e', c')"
    using ok by (cases "apply_state (saved_env, ?d)") auto
  with run have r: "do_calib_io ''0.9'' (saved_env, load_session) = Inr (SUCCESS, e', c')"
    by (simp add: version_check_def)
  have "min_x c' = 256"
    using apply_state_calibrator [OF a] by (simp add: sample_fields)
  moreover from do_calib_io_zoned [OF r] have "zoned c' \<longleftrightarrow>
      \<not> (min_x c' = 0 \<and> min_y c' = 0 \<and> max_x c' = screen_width load_session - 1
          \<and> max_y c' = screen_height load_session - 1)"
    by (simp add: sample_fields)
  ultimately show ?thesis
    using r by (simp add: sample_fields)
qed

subsection \<open>Rounding to a floating-point format\<close>

lemma rne_lower: "of_int n \<le> q \<Longrightarrow> n \<le> rne q"
proof -
  assume "of_int n \<le> q"
  then have "n \<le> \<lfloor>q\<rfloor>" by (simp add: le_floor_iff)
  moreover have "\<lfloor>q\<rfloor> \<le> rne q" by (simp add: rne_def Let_def)
  ultimately show ?thesis by simp
qed

lemma rne_upper: "q \<le> of_int n \<Longrightarrow> rne q \<le> n"
proof -
  assume q: "q \<le> of_int n"
  show ?thesis
  proof (cases "q = of_int \<lfloor>q\<rfloor>")
    case True
    then have "rne q = \<lfloor>q\<rfloor>" by (simp add: rne_def Let_def)
    moreover have "\<lfloor>q\<rfloor> \<le> n" using q floor_mono [of q "of_int n"] by simp
    ultimately show ?thesis by simp
  next
    case False
    then have "of_int \<lfloor>q\<rfloor> < q" by linarith
    with q have "of_int \<lfloor>q\<rfloor> < (of_int n :: real)" by linarith
    then have "\<lfloor>q\<rfloor> < n" by simp
    moreover have "rne q \<le> \<lfloor>q\<rfloor> + 1" by (simp add: rne_def Let_def)
    ultimately show ?thesis by simp
  qed
qed

lemma rne_of_int: "rne (of_int n) = n"
  by (simp add: rne_def)

lemma two_powi_pos: "0 < (2::real) powi k"
  by (simp add: zero_less_power_int)

lemma two_powr_powi: "(2::real) powr real_of_int k = 2 powi k"
  by (simp add: powr_real_of_int')

lemma floor_log2_bounds:
  assumes "x \<noteq> 0"
  shows "2 powi \<lfloor>log 2 \<bar>x\<bar>\<rfloor> \<le> \<bar>x\<bar>" and "\<bar>x\<bar> < 2 powi (\<lfloor>log 2 \<bar>x\<bar>\<rfloor> + 1)"
proof -
  have p: "0 < \<bar>x\<bar>" using assms by simp
  have "(\<lfloor>log 2 \<bar>x\<bar>\<rfloor> = \<lfloor>log 2 \<bar>x\<bar>\<rfloor>) =
       (2 powr real_of_int \<lfloor>log 2 \<bar>x\<bar>\<rfloor> \<le> \<bar>x\<bar> \<and> \<bar>x\<bar> < 2 powr real_of_int (\<lfloor>log 2 \<bar>x\<bar>\<rfloor> + 1))"
    by (rule floor_log_eq_powr_iff [OF p]) simp
  then have "2 powi \<lfloor>log 2 \<bar>x\<bar>\<rfloor> \<le> \<bar>x\<bar> \<and> \<bar>x\<bar> < 2 powi (\<lfloor>log 2 \<bar>x\<bar>\<rfloor> + 1)"
    by (simp only: two_powr_powi simp_thms)
  then show "2 powi \<lfloor>log 2 \<bar>x\<bar>\<rfloor> \<le> \<bar>x\<bar>" and "\<bar>x\<bar> < 2 powi (\<lfloor>log 2 \<bar>x\<bar>\<rfloor> + 1)"
    by blast+
qed


lemma powi_mono2: "a \<le> b \<Longrightarrow> (2::real) powi a \<le> 2 powi b"
  by (simp add: power_int_increasing)


lemma round_float_nonneg:
  assumes "0 \<le> x" and "round_float p emin emax x = Finite y"
  shows "0 \<le> y"
proof (cases "x = 0")
  case True
  with assms show ?thesis by (simp add: round_float_def)
next
  case False
  define u where "u = (2::real) powi (max \<lfloor>log 2 \<bar>x\<bar>\<rfloor> emin - int p + 1)"
  have u: "0 < u" unfolding u_def by (rule two_powi_pos)
  have "of_int 0 \<le> x / u" using assms(1) u by simp
  then have "0 \<le> rne (x / u)" by (rule rne_lower)
  then have "0 \<le> of_int (rne (x / u)) * u" using u by simp
  moreover have "y = of_int (rne (x / u)) * u"
    using assms(2) False by (simp add: round_float_def Let_def u_def split: if_splits)
  ultimately show ?thesis by simp
qed

lemma round_float_nonpos:
  assumes "x \<le> 0" and "round_float p emin emax x = Finite y"
  shows "y \<le> 0"
proof (cases "x = 0")
  case True
  with assms show ?thesis by (simp add: round_float_def)
next
  case False
  define u where "u = (2::real) powi (max \<lfloor>log 2 \<bar>x\<bar>\<rfloor> emin - int p + 1)"
  have u: "0 < u" unfolding u_def by (rule two_powi_pos)
  have "x / u \<le> of_int 0" using assms(1) u by (simp add: divide_le_0_iff)
  then have "rne (x / u) \<le> 0" by (rule rne_upper)
  then have "of_int (rne (x / u)) * u \<le> 0" using u by (simp add: mult_le_0_iff)
  moreover have "y = of_int (rne (x / u)) * u"
    using assms(2) False by (simp add: round_float_def Let_def u_def split: if_splits)
  ultimately show ?thesis by simp
qed

text \<open>A rounding does not go below a power of two that the argument reaches.\<close>

lemma round_float_lower:
  assumes x: "2 powi j \<le> x" and j: "emin \<le> j" and p: "0 < p"
    and r: "round_float p emin emax x = Finite y"
  shows "2 powi j \<le> y"
proof -
  have x0: "0 < x" using x two_powi_pos [of j] by linarith
  define e where "e = \<lfloor>log 2 \<bar>x\<bar>\<rfloor>"
  have lo: "2 powi e \<le> x" and hi: "x < 2 powi (e + 1)"
    using floor_log2_bounds [of x] x0 by (simp_all add: e_def)
  have "j \<le> e"
  proof (rule ccontr)
    assume "\<not> j \<le> e"
    then have "e + 1 \<le> j" by simp
    then have "(2::real) powi (e + 1) \<le> 2 powi j" by (rule powi_mono2)
    with hi x show False by linarith
  qed
  then have m: "max e emin = e" using j by simp
  define u where "u = (2::real) powi (e - int p + 1)"
  have u: "0 < u" unfolding u_def by (rule two_powi_pos)
  have ip: "int (p - 1) + (e - int p + 1) = e"
    using p by simp
  have pu: "2 ^ (p - 1) * u = (2::real) powi e"
    using power_int_add [of "2::real" "int (p - 1)" "e - int p + 1"]
    unfolding ip u_def power_int_of_nat by simp
  have "2 ^ (p - 1) * u \<le> x" using lo pu by simp
  then have "of_int (2 ^ (p - 1)) \<le> x / u" using u by (simp add: field_simps)
  then have "2 ^ (p - 1) \<le> rne (x / u)" by (rule rne_lower)
  then have "real_of_int (2 ^ (p - 1)) \<le> real_of_int (rne (x / u))"
    by (simp only: of_int_le_iff)
  then have "2 ^ (p - 1) * u \<le> of_int (rne (x / u)) * u"
    using u by simp
  then have "2 powi e \<le> of_int (rne (x / u)) * u"
    by (simp only: pu)
  moreover have "y = of_int (rne (x / u)) * u"
    using r x0 m by (simp add: round_float_def Let_def u_def e_def split: if_splits)
  moreover have "(2::real) powi j \<le> 2 powi e"
    using \<open>j \<le> e\<close> by (rule powi_mono2)
  ultimately show ?thesis by linarith
qed

text \<open>A value with a mantissa of \<open>p\<close> bits and an exponent in range is its own rounding.\<close>

lemma round_float_exact:
  assumes x: "x = of_int m * 2 powi k" and m: "\<bar>m\<bar> < 2 ^ p"
    and k: "emin - int p + 1 \<le> k" and fin: "\<bar>x\<bar> < 2 powi (emax + 1)"
  shows "round_float p emin emax x = Finite x"
proof (cases "x = 0")
  case True
  then show ?thesis by (simp add: round_float_def)
next
  case False
  define e where "e = max \<lfloor>log 2 \<bar>x\<bar>\<rfloor> emin"
  define u where "u = (2::real) powi (e - int p + 1)"
  have u: "0 < u" unfolding u_def by (rule two_powi_pos)
  have "\<bar>x\<bar> = of_int \<bar>m\<bar> * 2 powi k"
    using x two_powi_pos [of k] by (simp add: abs_mult)
  also have "\<dots> < of_int (2 ^ p) * 2 powi k"
    using m two_powi_pos [of k] by (simp only: mult_less_cancel_right_pos of_int_less_iff)
  also have "\<dots> = 2 powi (int p + k)"
    using power_int_add [of "2::real" "int p" k] by simp
  finally have "\<bar>x\<bar> < 2 powi (int p + k)" .
  moreover have "2 powi \<lfloor>log 2 \<bar>x\<bar>\<rfloor> \<le> \<bar>x\<bar>"
    using floor_log2_bounds(1) [OF False] .
  ultimately have "(2::real) powi \<lfloor>log 2 \<bar>x\<bar>\<rfloor> < 2 powi (int p + k)"
    by linarith
  then have "\<lfloor>log 2 \<bar>x\<bar>\<rfloor> < int p + k"
    using powi_mono2 [of "int p + k" "\<lfloor>log 2 \<bar>x\<bar>\<rfloor>"] by (cases "\<lfloor>log 2 \<bar>x\<bar>\<rfloor> < int p + k") simp_all
  then have d: "0 \<le> k - (e - int p + 1)"
    using k by (simp add: e_def)
  have "(2::real) powi k = 2 powi (k - (e - int p + 1)) * u"
    using power_int_add [of "2::real" "k - (e - int p + 1)" "e - int p + 1"] by (simp add: u_def)
  also have "(2::real) powi (k - (e - int p + 1)) = of_int (2 ^ nat (k - (e - int p + 1)))"
    using d by (simp add: power_int_def)
  finally have "x / u = of_int (m * 2 ^ nat (k - (e - int p + 1)))"
    using u x by simp
  then have "of_int (rne (x / u)) * u = x"
    using u by (simp only: rne_of_int) (simp add: field_simps)
  then show ?thesis
    using False fin by (simp add: round_float_def Let_def e_def [symmetric] u_def [symmetric])
qed


lemma to_ldbl_exact:
  assumes x: "x = of_int m * 2 powi k" and m: "\<bar>m\<bar> < 2 ^ 64" and k: "- 16445 \<le> k" "k \<le> 16320"
  shows "to_ldbl x = Finite x"
proof -
  have "\<bar>x\<bar> = of_int \<bar>m\<bar> * 2 powi k"
    using x two_powi_pos [of k] by (simp add: abs_mult)
  also have "\<dots> < of_int (2 ^ 64) * 2 powi k"
    using m two_powi_pos [of k] by (simp only: mult_less_cancel_right_pos of_int_less_iff)
  also have "\<dots> = 2 powi (64 + k)"
    using power_int_add [of "2::real" 64 k] by simp
  also have "\<dots> \<le> 2 powi (16383 + 1)"
    using k by (intro powi_mono2) simp
  finally have fin: "\<bar>x\<bar> < 2 powi (16383 + 1)" .
  show ?thesis
    unfolding to_ldbl_def
    by (rule round_float_exact [OF x _ _ fin]) (use m k in simp_all)
qed

lemma to_ldbl_half_int:
  assumes "\<bar>m\<bar> < 2 ^ 64"
  shows "to_ldbl (of_int m / 2) = Finite (of_int m / 2)"
  by (rule to_ldbl_exact [of _ m "- 1"]) (use assms in \<open>simp_all add: power_int_minus\<close>)

lemma to_ldbl_int:
  assumes "\<bar>m\<bar> < 2 ^ 64"
  shows "to_ldbl (of_int m) = Finite (of_int m)"
  by (rule to_ldbl_exact [of _ m 0]) (use assms in simp_all)

subsection \<open>Powers of ten and the cast to \<open>long long\<close>\<close>

lemma pow10_exact:
  assumes "0 \<le> sint p" and "sint p \<le> 22"
  shows "pow10 p = Finite (10 ^ nat (sint p))"
proof -
  define n where "n = nat (sint p)"
  have n: "n \<le> 22" and pn: "sint p = int n"
    using assms by (simp_all add: n_def)
  have five: "(5::int) ^ n < 2 ^ 53"
  proof -
    have "(5::int) ^ n \<le> 5 ^ 22" by (rule power_increasing) (use n in simp_all)
    also have "\<dots> < 2 ^ 53" by simp
    finally show ?thesis .
  qed
  have x: "(10::real) ^ n = of_int (5 ^ n) * 2 powi int n"
  proof -
    have "(10::real) ^ n = (5 * 2) ^ n" by simp
    also have "\<dots> = 5 ^ n * 2 ^ n" by (rule power_mult_distrib)
    finally show ?thesis by simp
  qed
  have fin: "\<bar>(10::real) ^ n\<bar> < 2 powi (1023 + 1)"
  proof -
    have "(10::real) ^ n \<le> 10 ^ 22" by (rule power_increasing) (use n in simp_all)
    also have "\<dots> < 2 ^ 74" by simp
    also have "\<dots> \<le> 2 powi (1023 + 1)"
      using powi_mono2 [of 74 "1023 + 1"] by simp
    finally show ?thesis by simp
  qed
  have "round_float 53 (- 1022) 1023 (10 ^ n) = Finite (10 ^ n)"
    by (rule round_float_exact [OF x _ _ fin]) (use five in simp_all)
  then show ?thesis
    by (simp add: pow10_def to_dbl_def pn n_def [symmetric])
qed

lemma pow10_large:
  assumes "19 \<le> sint p"
  shows "to_long_long (pow10 p) = Inl FloatConversion"
proof (cases "pow10 p")
  case NotFinite
  then show ?thesis by (simp add: to_long_long_def)
next
  case (Finite y)
  define n where "n = nat (sint p)"
  have n: "19 \<le> n" and pn: "sint p = int n"
    using assms by (simp_all add: n_def)
  have "(2::real) powi 63 \<le> 10 ^ 19" by simp
  also have "\<dots> \<le> 10 ^ n" by (rule power_increasing) (use n in simp_all)
  finally have x: "(2::real) powi 63 \<le> 10 powi sint p" by (simp add: pn)
  have "2 powi 63 \<le> y"
    by (rule round_float_lower [OF x, of "- 1022" 53 1023]) (use Finite in \<open>simp_all add: pow10_def to_dbl_def\<close>)
  then have "2 ^ 63 \<le> y" by simp
  then have "(2::int) ^ 63 \<le> \<lfloor>y\<rfloor>" by (simp add: le_floor_iff)
  moreover have "0 \<le> y"
  proof -
    have "(0::real) \<le> 2 ^ 63" by simp
    then show ?thesis using \<open>2 ^ 63 \<le> y\<close> by (rule order_trans)
  qed
  ultimately show ?thesis
    using Finite by (simp add: to_long_long_def Let_def)
qed

lemma sint_llong_of_int:
  "- (2 ^ 63) \<le> k \<Longrightarrow> k < 2 ^ 63 \<Longrightarrow> sint (word_of_int k :: c_llong) = k"
  by (simp add: sint_word_ariths signed_take_bit_int_eq_self_iff sint_sbintrunc')

lemma to_long_long_of_int:
  assumes "to_long_long (Finite (of_int m)) = Inr k"
  shows "sint k = m"
proof (cases "- (2 ^ 63) \<le> m \<and> m < 2 ^ 63")
  case True
  with assms have "k = word_of_int m"
    by (cases "0 \<le> m") (simp_all add: to_long_long_def)
  with True show ?thesis by (simp add: sint_llong_of_int)
next
  case False
  with assms show ?thesis
    by (cases "0 \<le> m") (simp_all add: to_long_long_def)
qed

subsection \<open>Scaling and rounding the coefficients\<close>

lemma to_ldbl_nonneg: "0 \<le> x \<Longrightarrow> to_ldbl x = Finite y \<Longrightarrow> 0 \<le> y"
  unfolding to_ldbl_def by (rule round_float_nonneg)

lemma to_ldbl_nonpos: "x \<le> 0 \<Longrightarrow> to_ldbl x = Finite y \<Longrightarrow> y \<le> 0"
  unfolding to_ldbl_def by (rule round_float_nonpos)

lemma pow10_nonneg: "pow10 p = Finite w \<Longrightarrow> 0 \<le> w"
proof -
  assume "pow10 p = Finite w"
  moreover have "(0::real) \<le> 10 powi sint p"
    by (simp add: zero_le_power_int)
  ultimately show ?thesis
    unfolding pow10_def to_dbl_def by (rule round_float_nonneg [rotated])
qed

lemma scaled_sign:
  assumes "scaled v p = Finite y"
  shows "if 0 \<le> v then 0 \<le> y else y \<le> 0"
proof -
  from assms obtain w where w: "pow10 p = Finite w"
    by (cases "pow10 p") (auto simp: scaled_def ld_mul_def ld_add_def ld_sub_def split: if_splits)
  from assms w obtain y1 where y1: "to_ldbl (v * w) = Finite y1"
    by (cases "to_ldbl (v * w)") (auto simp: scaled_def ld_mul_def ld_add_def ld_sub_def split: if_splits)
  have w0: "0 \<le> w" using w by (rule pow10_nonneg)
  show ?thesis
  proof (cases "0 \<le> v")
    case True
    then have "0 \<le> v * w" using w0 by simp
    then have "0 \<le> y1" using y1 by (rule to_ldbl_nonneg)
    then have "0 \<le> y1 + 1 / 2" by simp
    moreover have "to_ldbl (y1 + 1 / 2) = Finite y"
      using assms True w y1 by (simp add: scaled_def ld_mul_def ld_add_def)
    ultimately have "0 \<le> y" by (rule to_ldbl_nonneg)
    with True show ?thesis by simp
  next
    case False
    then have "v * w \<le> 0" using w0 by (simp add: mult_le_0_iff)
    then have "y1 \<le> 0" using y1 by (rule to_ldbl_nonpos)
    then have "y1 - 1 / 2 \<le> 0" by simp
    moreover have "to_ldbl (y1 - 1 / 2) = Finite y"
      using assms False w y1 by (simp add: scaled_def ld_mul_def ld_sub_def)
    ultimately have "y \<le> 0" by (rule to_ldbl_nonpos)
    with False show ?thesis by simp
  qed
qed

lemma trunc_nonpos: "y \<le> 0 \<Longrightarrow> (if 0 \<le> y then \<lfloor>y\<rfloor> else \<lceil>y\<rceil>) = \<lceil>y::real\<rceil>"
  by (cases "y = 0") auto

lemma scale_coef_truncates:
  "scale_coef (Finite v) p =
     (case scaled v p of
        NotFinite \<Rightarrow> Inl FloatConversion
      | Finite y \<Rightarrow>
          (let r = (if 0 \<le> v then \<lfloor>y\<rfloor> else \<lceil>y\<rceil>) in
           if - (2 ^ 63) \<le> r \<and> r < 2 ^ 63 then Inr (word_of_int r) else Inl FloatConversion))"
proof -
  have def: "scale_coef (Finite v) p = to_long_long (scaled v p)"
    by (simp add: scale_coef_def scaled_def)
  show ?thesis
  proof (cases "scaled v p")
    case NotFinite
    then show ?thesis by (simp add: def to_long_long_def)
  next
    case (Finite y)
    show ?thesis
    proof (cases "0 \<le> v")
      case True
      with scaled_sign [OF Finite] have "0 \<le> y" by simp
      with True Finite show ?thesis by (simp add: def to_long_long_def)
    next
      case False
      with scaled_sign [OF Finite] have "y \<le> 0" by simp
      from trunc_nonpos [OF this] False Finite show ?thesis
        by (simp add: def to_long_long_def Let_def)
    qed
  qed
qed

lemma scaled_power:
  assumes "0 \<le> sint p" and "sint p \<le> 22"
  shows "scaled v p = (if 0 \<le> v
                      then ld_add (to_ldbl (v * 10 ^ nat (sint p))) (Finite (1 / 2))
                      else ld_sub (to_ldbl (v * 10 ^ nat (sint p))) (Finite (1 / 2)))"
  using pow10_exact [OF assms] by (simp add: scaled_def ld_mul_def)

lemma scale_coef_exact:
  assumes "0 \<le> sint p" and "sint p \<le> 22"
    and "to_ldbl (v * 10 ^ nat (sint p)) = Finite (v * 10 ^ nat (sint p))"
    and "0 \<le> v \<Longrightarrow> to_ldbl (v * 10 ^ nat (sint p) + 1 / 2) = Finite (v * 10 ^ nat (sint p) + 1 / 2)"
    and "v < 0 \<Longrightarrow> to_ldbl (v * 10 ^ nat (sint p) - 1 / 2) = Finite (v * 10 ^ nat (sint p) - 1 / 2)"
  shows "scale_coef (Finite v) p =
           (let r = (if 0 \<le> v then \<lfloor>v * 10 ^ nat (sint p) + 1 / 2\<rfloor>
                     else \<lceil>v * 10 ^ nat (sint p) - 1 / 2\<rceil>) in
            if - (2 ^ 63) \<le> r \<and> r < 2 ^ 63 then Inr (word_of_int r) else Inl FloatConversion)"
proof -
  have "scaled v p = Finite (if 0 \<le> v then v * 10 ^ nat (sint p) + 1 / 2
                             else v * 10 ^ nat (sint p) - 1 / 2)"
    using assms(3-5) by (simp add: scaled_power [OF assms(1,2)] ld_add_def ld_sub_def)
  then show ?thesis
    by (simp add: scale_coef_truncates Let_def)
qed







subsection \<open>The last entry of the matrix\<close>

lemma fill_H_length: "fill_H h p js hs = Inr hs' \<Longrightarrow> length hs' = length hs"
  by (induction js arbitrary: hs) (auto split: sum.splits)

text \<open>
  C7. After every successful \<open>find_H\<close> at a precision \<open>P \<ge> 0\<close> the last entry of the
  matrix, \<open>H[8]\<close>, is \<open>10^P\<close> exactly: a value that depends on the precision only, not on
  what the library solved.
\<close>

theorem find_H_h9:
  assumes "find_H solve (e, c) = Inr (SUCCESS, e', c')"
    and "0 \<le> sint (precision c)"
    and "length (H c) = 9"
  shows "sint (H c' ! 8) = 10 ^ nat (sint (precision c))
       \<and> H c' ! 8 = word_of_int (10 ^ nat (sint (precision c)))"
proof -
  from assms(1) obtain h hs k where
    fill: "fill_H h (precision c) [0..<8] (H c) = Inr hs"
    and k: "to_long_long (pow10 (precision c)) = Inr k"
    and c': "c' = c\<lparr>H := hs[8 := k]\<rparr>"
    by (auto simp: find_H_def split: gsl_outcome.splits sum.splits)
  from fill assms(3) have "length hs = 9"
    by (simp add: fill_H_length)
  then have h8: "H c' ! 8 = k"
    using c' by simp
  have small: "sint (precision c) \<le> 18"
    using k pow10_large [of "precision c"] by (cases "19 \<le> sint (precision c)") simp_all
  then have "pow10 (precision c) = Finite (10 ^ nat (sint (precision c)))"
    using assms(2) by (intro pow10_exact) simp_all
  then have "pow10 (precision c) = Finite (of_int (10 ^ nat (sint (precision c))))"
    by simp
  with k have "sint k = 10 ^ nat (sint (precision c))"
    by (simp only: to_long_long_of_int)
  with h8 have s: "sint (H c' ! 8) = 10 ^ nat (sint (precision c))"
    by simp
  have "H c' ! 8 = word_of_int (sint (H c' ! 8))"
    by simp
  also have "\<dots> = word_of_int (10 ^ nat (sint (precision c)))"
    by (simp only: s)
  finally show ?thesis
    using s by (rule conjI [rotated])
qed

lemma scale_coef_int:
  assumes p: "0 \<le> sint p" "sint p \<le> 18" and n: "\<bar>n\<bar> * 10 ^ nat (sint p) < 2 ^ 62"
  shows "scale_coef (Finite (of_int n)) p = Inr (word_of_int (n * 10 ^ nat (sint p)))"
proof -
  let ?k = "n * 10 ^ nat (sint p)"
  have k: "\<bar>?k\<bar> < 2 ^ 62" using n by (simp add: abs_mult)
  have prod: "(of_int n :: real) * 10 ^ nat (sint p) = of_int ?k" by simp
  have a: "to_ldbl (of_int ?k) = Finite (of_int ?k)"
    by (rule to_ldbl_int) (use k in simp)
  have b: "to_ldbl (of_int ?k + 1 / 2) = Finite (of_int ?k + 1 / 2)"
    using to_ldbl_half_int [of "2 * ?k + 1"] k by (simp add: add_divide_distrib)
  have c: "to_ldbl (of_int ?k - 1 / 2) = Finite (of_int ?k - 1 / 2)"
    using to_ldbl_half_int [of "2 * ?k - 1"] k by (simp add: diff_divide_distrib)
  have fl: "\<lfloor>(of_int ?k :: real) + 1 / 2\<rfloor> = ?k" by linarith
  have ce: "\<lceil>(of_int ?k :: real) - 1 / 2\<rceil> = ?k" by linarith
  have sgn: "\<not> 0 \<le> n \<Longrightarrow> \<not> 0 \<le> (of_int n :: real)" by simp
  have "scale_coef (Finite (of_int n)) p =
          (let r = (if 0 \<le> (of_int n :: real) then \<lfloor>(of_int n :: real) * 10 ^ nat (sint p) + 1 / 2\<rfloor>
                    else \<lceil>(of_int n :: real) * 10 ^ nat (sint p) - 1 / 2\<rceil>) in
           if - (2 ^ 63) \<le> r \<and> r < 2 ^ 63 then Inr (word_of_int r) else Inl FloatConversion)"
  proof (rule scale_coef_exact)
    show "0 \<le> sint p" "sint p \<le> 22" using p by simp_all
    show "to_ldbl (real_of_int n * 10 ^ nat (sint p)) = Finite (real_of_int n * 10 ^ nat (sint p))"
      using a by (simp only: prod)
    show "to_ldbl (real_of_int n * 10 ^ nat (sint p) + 1 / 2) = Finite (real_of_int n * 10 ^ nat (sint p) + 1 / 2)"
      using b by (simp only: prod)
    show "to_ldbl (real_of_int n * 10 ^ nat (sint p) - 1 / 2) = Finite (real_of_int n * 10 ^ nat (sint p) - 1 / 2)"
      using c by (simp only: prod)
  qed
  also have "\<dots> = Inr (word_of_int ?k)"
    using k unfolding prod fl ce Let_def by (simp only: if_cancel) auto
  finally show ?thesis .
qed

lemma scale_coef_one: "scale_coef (Finite 1) 12 = Inr 1000000000000"
  using scale_coef_int [of 12 1] by simp

lemma scale_coef_zero: "scale_coef (Finite 0) 12 = Inr 0"
  using scale_coef_int [of 12 0] by simp

lemma pow10_12: "to_long_long (pow10 12) = Inr 1000000000000"
  using pow10_exact [of 12] by (simp add: to_long_long_def)

text \<open>Precision 12 and a library that finds the identity.\<close>

theorem find_H_h9_witness:
  "find_H identity_gsl (no_env, fresh_session) = Inr (SUCCESS, no_env, identity_session)
   \<and> sint (precision fresh_session) = 12 \<and> sint (H identity_session ! 8) = 10 ^ 12"
proof -
  have run: "find_H identity_gsl (no_env, fresh_session) = Inr (SUCCESS, no_env, identity_session)"
    by (simp add: find_H_def identity_gsl_def fresh_session_def identity_session_def session_def
        upt_rec scale_coef_one scale_coef_zero pow10_12)
  have p: "sint (precision fresh_session) = 12" "length (H fresh_session) = 9"
    by (simp_all add: fresh_session_def session_def)
  from find_H_h9 [OF run] p show ?thesis
    using run by simp
qed

subsection \<open>Degenerate points\<close>








end
